theory Spec2Isabelle
  imports Complex_Main "HOL-Library.Word"
begin

section \<open>Python values exchanged with the remote\<close>

text \<open>
  \<^verbatim>\<open>json.loads\<close> yields \<^verbatim>\<open>None\<close>, \<^verbatim>\<open>bool\<close>, \<^verbatim>\<open>int\<close>, \<^verbatim>\<open>float\<close>, \<^verbatim>\<open>str\<close>,
  \<^verbatim>\<open>list\<close> and \<^verbatim>\<open>dict\<close>. A finite float is kept by its exact value, which is what
  Python compares when a float meets an int.
\<close>

datatype pyfloat = Finite rat | PosInf | NegInf | NaN

datatype json =
    JNull
  | JBool bool
  | JInt int
  | JFloat pyfloat
  | JString string
  | JArray "json list"
  | JObject "(string \<times> json) list"

text \<open>Truth value of an object, as \<^verbatim>\<open>if x:\<close> tests it.\<close>

fun truthy :: "json \<Rightarrow> bool" where
  "truthy JNull = False"
| "truthy (JBool b) = b"
| "truthy (JInt i) = (i \<noteq> 0)"
| "truthy (JFloat f) = (f \<noteq> Finite 0)"
| "truthy (JString s) = (s \<noteq> [])"
| "truthy (JArray xs) = (xs \<noteq> [])"
| "truthy (JObject kvs) = (kvs \<noteq> [])"

text \<open>
  \<^verbatim>\<open>x == f\<close> for a finite float literal \<^verbatim>\<open>f\<close>: numbers compare by value, \<^verbatim>\<open>bool\<close> is a
  subclass of \<^verbatim>\<open>int\<close> (\<^verbatim>\<open>True == 1.0\<close>), every other object is unequal to a float.
\<close>

fun py_eq_float :: "json \<Rightarrow> rat \<Rightarrow> bool" where
  "py_eq_float (JBool b) r = ((if b then 1 else 0) = r)"
| "py_eq_float (JInt i) r = (of_int i = r)"
| "py_eq_float (JFloat f) r = (f = Finite r)"
| "py_eq_float _ r = False"

section \<open>Exceptions and outcomes\<close>

text \<open>
  The module raises \<^verbatim>\<open>ValueError\<close> for every failure of its own, told apart by the
  argument only, and \<^verbatim>\<open>CanceledByUser\<close>. \<^verbatim>\<open>KeyError\<close> and \<^verbatim>\<open>TypeError\<close> come from
  subscripting a response; \<^verbatim>\<open>LibError\<close> stands for what the libraries raise
  (\<^verbatim>\<open>pywintypes.error\<close>, \<^verbatim>\<open>psutil.NoSuchProcess\<close>, decoding errors).
\<close>

datatype pyexc =
    ValueError json
  | CanceledByUser string
  | KeyError string
  | TypeError string
  | LibError string

definition ProcessNotFound :: pyexc where
  "ProcessNotFound = ValueError (JString
     ''EVS Process not found. Please specify Process ID or guarantee that EVS is already running.'')"

definition InvalidProcessId :: pyexc where
  "InvalidProcessId = ValueError (JString ''Invalid Process ID specified. EVS Process not found.'')"

definition ConnectionRefused :: pyexc where
  "ConnectionRefused = ValueError (JString
     ''Invalid Process ID specified. EVS Process not found or connection refused.'')"

definition UnsupportedApiVersion :: pyexc where
  "UnsupportedApiVersion = ValueError (JString
     ''EVS does not support proper API version for this release.'')"

definition RemoteError :: "string \<Rightarrow> pyexc" where
  "RemoteError msg = ValueError (JString msg)"

text \<open>A call returns, raises, or blocks for ever in a read that nothing answers.\<close>

datatype 'a outcome = Return 'a | Raise pyexc | Hang

section \<open>The environment: processes, pipes and libraries\<close>

type_synonym handle = nat
type_synonym bytes = "8 word list"

text \<open>What a library call raises is kept by its message and surfaces as \<^verbatim>\<open>LibError\<close>.\<close>

type_synonym liberr = string

record psproc =
  ps_pid :: int
  ps_name :: string

text \<open>
  What lies outside the module: the process table, the outcome of the \<open>k\<close>-th
  \<^verbatim>\<open>CreateFile\<close> and \<^verbatim>\<open>SetNamedPipeHandleState\<close> call, the installed executable and the
  spawning of a child. The source compares what \<^verbatim>\<open>SetNamedPipeHandleState\<close> returns
  with 0; the library itself returns \<^verbatim>\<open>None\<close> (any value other than 0 here) when the call
  succeeds and raises when it fails.
\<close>

record env =
  process_iter :: "psproc list"
  create_file :: "string \<Rightarrow> nat \<Rightarrow> liberr + handle"
  set_mode :: "handle \<Rightarrow> nat \<Rightarrow> liberr + int"
  find_evs_executable_path :: "pyexc + string"
  popen :: "string list \<Rightarrow> liberr + int"

text \<open>\<^verbatim>\<open>json.dumps\<close>, \<^verbatim>\<open>json.loads\<close>, \<^verbatim>\<open>str.encode('utf-8')\<close> and \<^verbatim>\<open>bytes.decode('utf-8')\<close>.\<close>

record lib =
  json_dumps :: "json \<Rightarrow> string"
  json_loads :: "string \<Rightarrow> liberr + json"
  utf8_encode :: "string \<Rightarrow> bytes"
  utf8_decode :: "bytes \<Rightarrow> liberr + string"

datatype event =
    CreateFile string
  | Sleep nat
  | SetNamedPipeHandleState "handle option"
  | WriteFile handle bytes
  | ReadFile handle nat
  | CloseHandle handle
  | Popen "string list"

text \<open>
  The observable history, oldest event first, and the frames the remote will deliver,
  next one first (\<open>Inl\<close>: the read raises).
\<close>

record world =
  trace :: "event list"
  inbox :: "(liberr + bytes) list"

definition emit :: "event list \<Rightarrow> world \<Rightarrow> world" where
  "emit es w = w\<lparr>trace := trace w @ es\<rparr>"

section \<open>Process resolution\<close>

definition evs_exe_name :: string where
  "evs_exe_name = ''EarthVolumetricStudio.exe''"

text \<open>\<^verbatim>\<open>psutil.Process(pid)\<close>: the process of that identifier, or an error when none has it.\<close>

definition psutil_Process :: "env \<Rightarrow> int \<Rightarrow> liberr + psproc" where
  "psutil_Process E pid =
     (case find (\<lambda>pr. ps_pid pr = pid) (process_iter E) of
        None \<Rightarrow> Inl ''NoSuchProcess''
      | Some pr \<Rightarrow> Inr pr)"

definition set_or_find_pid :: "env \<Rightarrow> int \<Rightarrow> pyexc + int" where
  "set_or_find_pid E pid =
     (if pid = - 1 then
        (case foldl (\<lambda>process proc. if ps_name proc = evs_exe_name then Some proc else process)
                None (process_iter E) of
           None \<Rightarrow> Inl ProcessNotFound
         | Some process \<Rightarrow> Inr (ps_pid process))
      else
        (case psutil_Process E pid of
           Inl _ \<Rightarrow> Inl InvalidProcessId
         | Inr process \<Rightarrow> Inr (ps_pid process)))"

section \<open>The channel\<close>

record proc =
  handle :: "handle option"
  pid :: "int option"

definition bufferSize :: nat where
  "bufferSize = 8192 * 8"

text \<open>The character of a decimal digit \<open>n < 10\<close>.\<close>

definition digit_char :: "nat \<Rightarrow> char" where
  "digit_char n = ''0123456789'' ! n"

text \<open>\<^verbatim>\<open>str(n)\<close> of a natural number and of an integer.\<close>

fun str_nat :: "nat \<Rightarrow> string" where
  "str_nat n = (if n < 10 then [digit_char n] else str_nat (n div 10) @ [digit_char (n mod 10)])"

declare str_nat.simps [simp del]

definition str_int :: "int \<Rightarrow> string" where
  "str_int i = (if i < 0 then CHR ''-'' # str_nat (nat (- i)) else str_nat (nat i))"

definition pipe_name :: "int \<Rightarrow> string" where
  "pipe_name p = [CHR 0x5C, CHR 0x5C, CHR ''.'', CHR 0x5C] @ ''pipe'' @ [CHR 0x5C] @ ''EVS_'' @ str_int p"

text \<open>
  Phase 1 of \<^verbatim>\<open>__init__\<close>. The loop keeps \<^verbatim>\<open>attempts_remaining\<close> as it is: the body
  either leaves by \<^verbatim>\<open>break\<close> or sleeps and goes round again. A loop that never ends has
  no result (\<open>None\<close>).
\<close>

partial_function (option) open_loop ::
  "env \<Rightarrow> string \<Rightarrow> int \<Rightarrow> nat \<Rightarrow> proc \<Rightarrow> world \<Rightarrow> (proc \<times> world) option" where
  "open_loop E pipeName attempts_remaining k p w =
     (if attempts_remaining > 0 then
        (case create_file E pipeName k of
           Inr h \<Rightarrow> Some (p\<lparr>handle := Some h\<rparr>, emit [CreateFile pipeName] w)
         | Inl _ \<Rightarrow> open_loop E pipeName attempts_remaining (Suc k) p
                     (emit [CreateFile pipeName, Sleep 1] w))
      else Some (p, w))"

text \<open>\<^verbatim>\<open>win32pipe.SetNamedPipeHandleState\<close> on the stored handle, \<open>k\<close> calls having gone before.\<close>

definition SetNamedPipeHandleState_call :: "env \<Rightarrow> handle option \<Rightarrow> nat \<Rightarrow> liberr + int" where
  "SetNamedPipeHandleState_call E ho k =
     (case ho of None \<Rightarrow> Inl ''invalid handle'' | Some h \<Rightarrow> set_mode E h k)"

text \<open>Phase 2 of \<^verbatim>\<open>__init__\<close>; the result is the flag \<^verbatim>\<open>success\<close>.\<close>

function mode_loop :: "env \<Rightarrow> int \<Rightarrow> nat \<Rightarrow> proc \<Rightarrow> world \<Rightarrow> bool outcome \<times> world" where
  "mode_loop E attempts_remaining k p w =
     (if attempts_remaining > 0 then
        (case SetNamedPipeHandleState_call E (handle p) k of
           Inl e \<Rightarrow> (Raise (LibError e), emit [SetNamedPipeHandleState (handle p)] w)
         | Inr res \<Rightarrow>
             if res = 0 then
               mode_loop E (attempts_remaining - 1) (Suc k) p
                 (emit [SetNamedPipeHandleState (handle p), Sleep 1] w)
             else (Return True, emit [SetNamedPipeHandleState (handle p)] w))
      else (Return False, w))"
  by pat_completeness auto
termination
  by (relation "measure (\<lambda>(E, a, k, p, w). nat a)") auto

declare mode_loop.simps [simp del]

definition EvsProcess_init :: "env \<Rightarrow> int \<Rightarrow> int \<Rightarrow> world \<Rightarrow> (proc outcome \<times> world) option" where
  "EvsProcess_init E pid0 timeout w =
     (case open_loop E (pipe_name pid0) 5 0 \<lparr>handle = None, pid = Some pid0\<rparr> w of
        None \<Rightarrow> None
      | Some (p, w1) \<Rightarrow>
          Some (case mode_loop E timeout 0 p w1 of
                  (Raise e, w2) \<Rightarrow> (Raise e, w2)
                | (Hang, w2) \<Rightarrow> (Hang, w2)
                | (Return success, w2) \<Rightarrow>
                    if \<not> success then (Raise ConnectionRefused, w2) else (Return p, w2)))"

text \<open>The history of \<open>n\<close> failed attempts \<open>e\<close>, each followed by a sleep of one second.\<close>

definition retries :: "nat \<Rightarrow> event \<Rightarrow> event list" where
  "retries n e = concat (replicate n [e, Sleep 1])"

text \<open>How many times the history shows \<^verbatim>\<open>SetNamedPipeHandleState\<close>.\<close>

definition mode_attempts :: "world \<Rightarrow> nat" where
  "mode_attempts w =
     length (filter (\<lambda>e. case e of SetNamedPipeHandleState _ \<Rightarrow> True | _ \<Rightarrow> False) (trace w))"

section \<open>Requests and responses\<close>

text \<open>
  \<^verbatim>\<open>__write\<close>: one \<^verbatim>\<open>WriteFile\<close> of the message and a newline, encoded. A write on an
  open handle is taken to succeed; without a handle the library raises.
\<close>

definition write_msg :: "lib \<Rightarrow> proc \<Rightarrow> string \<Rightarrow> world \<Rightarrow> unit outcome \<times> world" where
  "write_msg L p msg w =
     (case handle p of
        None \<Rightarrow> (Raise (LibError ''invalid handle''), w)
      | Some h \<Rightarrow> (Return (), emit [WriteFile h (utf8_encode L (msg @ [CHR 0x0A]))] w))"

text \<open>
  \<^verbatim>\<open>__read\<close>: one \<^verbatim>\<open>ReadFile\<close> of at most \<^verbatim>\<open>_bufferSize\<close> bytes. The status it returns is
  dropped by the source; what the buffer does not hold of a frame stays in the pipe.
\<close>

definition read_msg :: "lib \<Rightarrow> proc \<Rightarrow> world \<Rightarrow> string outcome \<times> world" where
  "read_msg L p w =
     (case handle p of
        None \<Rightarrow> (Raise (LibError ''invalid handle''), w)
      | Some h \<Rightarrow>
          (case inbox w of
             [] \<Rightarrow> (Hang, emit [ReadFile h bufferSize] w)
           | Inl e # rest \<Rightarrow> (Raise (LibError e), (emit [ReadFile h bufferSize] w)\<lparr>inbox := rest\<rparr>)
           | Inr frame # rest \<Rightarrow>
               (let resp = take bufferSize frame;
                    left = drop bufferSize frame;
                    w' = (emit [ReadFile h bufferSize] w)
                           \<lparr>inbox := (if left = [] then rest else Inr left # rest)\<rparr>
                in case utf8_decode L resp of
                     Inl e \<Rightarrow> (Raise (LibError e), w')
                   | Inr s \<Rightarrow> (Return s, w'))))"

definition send_json :: "lib \<Rightarrow> proc \<Rightarrow> json \<Rightarrow> world \<Rightarrow> unit outcome \<times> world" where
  "send_json L p pyobj w = write_msg L p (json_dumps L pyobj) w"

definition recv_json :: "lib \<Rightarrow> proc \<Rightarrow> world \<Rightarrow> json outcome \<times> world" where
  "recv_json L p w =
     (case read_msg L p w of
        (Return msg, w') \<Rightarrow>
          (case json_loads L msg of Inl e \<Rightarrow> (Raise (LibError e), w') | Inr v \<Rightarrow> (Return v, w'))
      | (Raise e, w') \<Rightarrow> (Raise e, w')
      | (Hang, w') \<Rightarrow> (Hang, w'))"

text \<open>The request object \<^verbatim>\<open>{"method": method, "args": args}\<close>; the tuple \<^verbatim>\<open>args\<close> is an array.\<close>

definition request_obj :: "string \<Rightarrow> json list \<Rightarrow> json" where
  "request_obj method args = JObject [(''method'', JString method), (''args'', JArray args)]"

definition request :: "lib \<Rightarrow> proc \<Rightarrow> string \<Rightarrow> json list \<Rightarrow> world \<Rightarrow> json outcome \<times> world" where
  "request L p method args w =
     (case send_json L p (request_obj method args) w of
        (Return _, w') \<Rightarrow> recv_json L p w'
      | (Raise e, w') \<Rightarrow> (Raise e, w')
      | (Hang, w') \<Rightarrow> (Hang, w'))"

text \<open>The bytes that \<^verbatim>\<open>__send_json\<close> hands to \<^verbatim>\<open>WriteFile\<close> for a request.\<close>

definition request_frame :: "lib \<Rightarrow> string \<Rightarrow> json list \<Rightarrow> bytes" where
  "request_frame L method args =
     utf8_encode L (json_dumps L (JObject [(''method'', JString method), (''args'', JArray args)])
                    @ [CHR 0x0A])"

text \<open>\<^verbatim>\<open>res[key]\<close> on a parsed response.\<close>

fun subscript :: "json \<Rightarrow> string \<Rightarrow> pyexc + json" where
  "subscript (JObject kvs) key =
     (case map_of kvs key of None \<Rightarrow> Inl (KeyError key) | Some v \<Rightarrow> Inr v)"
| "subscript (JArray xs) key = Inl (TypeError ''list indices must be integers or slices, not str'')"
| "subscript (JString s) key = Inl (TypeError ''string indices must be integers'')"
| "subscript v key = Inl (TypeError ''object is not subscriptable'')"

text \<open>\<^verbatim>\<open>__build_result\<close> after the request has come back with \<open>res\<close>.\<close>

definition unwrap :: "json \<Rightarrow> json outcome" where
  "unwrap res =
     (case subscript res ''Success'' of
        Inl e \<Rightarrow> Raise e
      | Inr s \<Rightarrow>
          if truthy s then
            (case subscript res ''Value'' of Inl e \<Rightarrow> Raise e | Inr v \<Rightarrow> Return v)
          else
            (case subscript res ''Error'' of Inl e \<Rightarrow> Raise e | Inr er \<Rightarrow> Raise (ValueError er)))"

definition build_result :: "lib \<Rightarrow> proc \<Rightarrow> string \<Rightarrow> json list \<Rightarrow> world \<Rightarrow> json outcome \<times> world" where
  "build_result L p method args w =
     (case request L p method args w of
        (Return res, w') \<Rightarrow> (unwrap res, w')
      | (Raise e, w') \<Rightarrow> (Raise e, w')
      | (Hang, w') \<Rightarrow> (Hang, w'))"

definition get_api_version :: "lib \<Rightarrow> proc \<Rightarrow> world \<Rightarrow> json outcome \<times> world" where
  "get_api_version L p w = build_result L p ''Version'' [] w"

definition wait_for_ready :: "lib \<Rightarrow> proc \<Rightarrow> world \<Rightarrow> json outcome \<times> world" where
  "wait_for_ready L p w = build_result L p ''WaitForReady'' [] w"

definition shutdown :: "lib \<Rightarrow> proc \<Rightarrow> world \<Rightarrow> json outcome \<times> world" where
  "shutdown L p w = build_result L p ''Shutdown'' [] w"

text \<open>\<^verbatim>\<open>close\<close>: \<^verbatim>\<open>False\<close> without a handle, else the handle is closed and both fields cleared.\<close>

definition close :: "proc \<Rightarrow> world \<Rightarrow> bool \<times> proc \<times> world" where
  "close p w =
     (case handle p of
        None \<Rightarrow> (False, p, w)
      | Some h \<Rightarrow> (True, p\<lparr>handle := None, pid := None\<rparr>, emit [CloseHandle h] w))"

text \<open>\<^verbatim>\<open>check_cancel\<close> returns \<^verbatim>\<open>None\<close> when it does not raise.\<close>

definition check_cancel :: "lib \<Rightarrow> proc \<Rightarrow> world \<Rightarrow> unit outcome \<times> world" where
  "check_cancel L p w =
     (case build_result L p ''CheckCancel'' [] w of
        (Return canceled, w') \<Rightarrow>
          if truthy canceled then (Raise (CanceledByUser ''Script canceled by user.''), w')
          else (Return (), w')
      | (Raise e, w') \<Rightarrow> (Raise e, w')
      | (Hang, w') \<Rightarrow> (Hang, w'))"

section \<open>Session flows\<close>

text \<open>
  The caller's block under \<^verbatim>\<open>with ... as evs:\<close>: it may use and close the channel, and
  ends normally, by an exception, or not at all.
\<close>

type_synonym scope = "proc \<Rightarrow> world \<Rightarrow> unit outcome \<times> proc \<times> world"

text \<open>The \<^verbatim>\<open>except:\<close> clause: close, then re-raise what was caught.\<close>

definition on_except :: "pyexc \<Rightarrow> proc \<Rightarrow> world \<Rightarrow> unit outcome \<times> proc \<times> world" where
  "on_except e p w = (case close p w of (_, p', w') \<Rightarrow> (Raise e, p', w'))"

text \<open>The \<^verbatim>\<open>else:\<close> clause, outside the protection of the \<^verbatim>\<open>try\<close>.\<close>

definition on_else :: "lib \<Rightarrow> bool \<Rightarrow> proc \<Rightarrow> world \<Rightarrow> unit outcome \<times> proc \<times> world" where
  "on_else L auto_shutdown p w =
     (case (if auto_shutdown then shutdown L p w else (Return JNull, w)) of
        (Raise e, w') \<Rightarrow> (Raise e, p, w')
      | (Hang, w') \<Rightarrow> (Hang, p, w')
      | (Return _, w') \<Rightarrow> (case close p w' of (_, p', w'') \<Rightarrow> (Return (), p', w'')))"

text \<open>
  The \<^verbatim>\<open>try\<close> statement that both flows run once the channel is open (the two texts are
  the same, line for line), with the caller's block at the \<^verbatim>\<open>yield\<close>.
\<close>

definition session ::
  "lib \<Rightarrow> bool \<Rightarrow> bool \<Rightarrow> scope \<Rightarrow> proc \<Rightarrow> world \<Rightarrow> unit outcome \<times> proc \<times> world" where
  "session L auto_shutdown auto_wait_for_ready body p w =
     (case get_api_version L p w of
        (Raise e, w1) \<Rightarrow> on_except e p w1
      | (Hang, w1) \<Rightarrow> (Hang, p, w1)
      | (Return version, w1) \<Rightarrow>
          if \<not> py_eq_float version 1 then on_except UnsupportedApiVersion p w1
          else
            (case (if auto_wait_for_ready then wait_for_ready L p w1 else (Return JNull, w1)) of
               (Raise e, w2) \<Rightarrow> on_except e p w2
             | (Hang, w2) \<Rightarrow> (Hang, p, w2)
             | (Return _, w2) \<Rightarrow>
                 (case body p w2 of
                    (Raise e, p3, w3) \<Rightarrow> on_except e p3 w3
                  | (Hang, p3, w3) \<Rightarrow> (Hang, p3, w3)
                  | (Return _, p3, w3) \<Rightarrow> on_else L auto_shutdown p3 w3)))"

text \<open>What a flow does with the outcome of \<^verbatim>\<open>_EvsProcess(_pid, timeout)\<close>.\<close>

definition with_channel ::
  "lib \<Rightarrow> bool \<Rightarrow> bool \<Rightarrow> scope \<Rightarrow> (proc outcome \<times> world) option \<Rightarrow>
   (unit outcome \<times> proc option \<times> world) option" where
  "with_channel L auto_shutdown auto_wait_for_ready body r =
     (case r of
        None \<Rightarrow> None
      | Some (Raise e, w) \<Rightarrow> Some (Raise e, None, w)
      | Some (Hang, w) \<Rightarrow> Some (Hang, None, w)
      | Some (Return p, w) \<Rightarrow>
          (case session L auto_shutdown auto_wait_for_ready body p w of
             (r', p', w') \<Rightarrow> Some (r', Some p', w')))"

definition start_new ::
  "lib \<Rightarrow> env \<Rightarrow> bool \<Rightarrow> int \<Rightarrow> bool \<Rightarrow> bool \<Rightarrow> scope \<Rightarrow> world \<Rightarrow>
   (unit outcome \<times> proc option \<times> world) option" where
  "start_new L E auto_shutdown timeout auto_wait_for_ready start_minimized body w =
     (case find_evs_executable_path E of
        Inl e \<Rightarrow> Some (Raise e, None, w)
      | Inr exe \<Rightarrow>
          (let args = (if start_minimized then [exe, ''-n'', ''-w'', ''-m''] else [exe, ''-n'', ''-w''])
           in case popen E args of
                Inl e \<Rightarrow> Some (Raise (LibError e), None, w)
              | Inr pid0 \<Rightarrow>
                  with_channel L auto_shutdown auto_wait_for_ready body
                    (EvsProcess_init E pid0 timeout (emit [Popen args, Sleep 1] w))))"

definition connect_to_existing ::
  "lib \<Rightarrow> env \<Rightarrow> int \<Rightarrow> bool \<Rightarrow> int \<Rightarrow> bool \<Rightarrow> scope \<Rightarrow> world \<Rightarrow>
   (unit outcome \<times> proc option \<times> world) option" where
  "connect_to_existing L E pid0 auto_shutdown timeout auto_wait_for_ready body w =
     (case set_or_find_pid E pid0 of
        Inl e \<Rightarrow> Some (Raise e, None, w)
      | Inr pid1 \<Rightarrow>
          with_channel L auto_shutdown auto_wait_for_ready body
            (EvsProcess_init E pid1 timeout w))"

section \<open>Date helpers (\<^verbatim>\<open>evs_util\<close>)\<close>

text \<open>
  A \<^verbatim>\<open>datetime.datetime\<close>: its fields, and the offset from UTC in microseconds when it
  is aware (\<open>None\<close> for a naive one).
\<close>

record datetime =
  year :: nat
  month :: nat
  day :: nat
  hour :: nat
  minute :: nat
  second :: nat
  microsecond :: nat
  tzinfo :: "int option"

definition is_leap :: "nat \<Rightarrow> bool" where
  "is_leap y = (y mod 4 = 0 \<and> (y mod 100 \<noteq> 0 \<or> y mod 400 = 0))"

definition days_in_month :: "nat \<Rightarrow> nat \<Rightarrow> nat" where
  "days_in_month y m =
     (if m = 2 then (if is_leap y then 29 else 28)
      else if m = 4 \<or> m = 6 \<or> m = 9 \<or> m = 11 then 30 else 31)"

text \<open>The values the \<^verbatim>\<open>datetime\<close> constructor accepts.\<close>

definition valid_datetime :: "datetime \<Rightarrow> bool" where
  "valid_datetime d =
     (1 \<le> year d \<and> year d \<le> 9999 \<and> 1 \<le> month d \<and> month d \<le> 12 \<and>
      1 \<le> day d \<and> day d \<le> days_in_month (year d) (month d) \<and>
      hour d < 24 \<and> minute d < 60 \<and> second d < 60 \<and> microsecond d < 1000000)"

text \<open>Microseconds since the start of year 1, in UTC, of an aware value.\<close>

definition days_before_year :: "nat \<Rightarrow> nat" where
  "days_before_year y = 365 * (y - 1) + (y - 1) div 4 - (y - 1) div 100 + (y - 1) div 400"

definition days_before_month :: "nat \<Rightarrow> nat \<Rightarrow> nat" where
  "days_before_month y m = sum_list (map (days_in_month y) [1..<m])"

definition utc_micros :: "datetime \<Rightarrow> int \<Rightarrow> int" where
  "utc_micros d off =
     ((((int (days_before_year (year d) + days_before_month (year d) (month d) + day d) * 24
         + int (hour d)) * 60 + int (minute d)) * 60 + int (second d)) * 1000000
      + int (microsecond d)) - off"

text \<open>
  \<^verbatim>\<open>a == b\<close> on two \<^verbatim>\<open>datetime\<close>s: field by field when both are naive, by instant when
  both are aware, and \<^verbatim>\<open>False\<close> when one is naive and the other aware.
\<close>

definition datetime_eq :: "datetime \<Rightarrow> datetime \<Rightarrow> bool" where
  "datetime_eq a b =
     (case (tzinfo a, tzinfo b) of
        (None, None) \<Rightarrow> a = b
      | (Some oa, Some ob) \<Rightarrow> utc_micros a oa = utc_micros b ob
      | _ \<Rightarrow> False)"

text \<open>\<^verbatim>\<open>s.zfill(w)\<close> on a string of digits: zeros on the left up to width \<open>w\<close>.\<close>

definition zfill :: "nat \<Rightarrow> string \<Rightarrow> string" where
  "zfill w s = replicate (w - length s) CHR ''0'' @ s"

text \<open>The last \<open>w\<close> decimal digits of \<open>n\<close>, as text of width \<open>w\<close>.\<close>

primrec fixed :: "nat \<Rightarrow> nat \<Rightarrow> string" where
  "fixed 0 n = []"
| "fixed (Suc w) n = fixed w (n div 10) @ [digit_char (n mod 10)]"

text \<open>
  \<^verbatim>\<open>d.strftime("%Y-%m-%dT%H:%M:%S.%f")\<close>. The C library decides whether \<^verbatim>\<open>%Y\<close> pads a
  year below 1000 to four digits (\<open>pad_year\<close>) or prints it as it is; the other
  fields have a fixed width. No field of the format prints the offset.
\<close>

definition strftime_evs :: "bool \<Rightarrow> datetime \<Rightarrow> string" where
  "strftime_evs pad_year d =
     (if pad_year then zfill 4 (str_nat (year d)) else str_nat (year d)) @ ''-'' @
     zfill 2 (str_nat (month d)) @ ''-'' @ zfill 2 (str_nat (day d)) @ ''T'' @
     zfill 2 (str_nat (hour d)) @ '':'' @ zfill 2 (str_nat (minute d)) @ '':'' @
     zfill 2 (str_nat (second d)) @ ''.'' @ zfill 6 (str_nat (microsecond d))"

definition datetime_to_evsdate :: "bool \<Rightarrow> datetime \<Rightarrow> string" where
  "datetime_to_evsdate pad_year d = strftime_evs pad_year d"

text \<open>
  \<^verbatim>\<open>strptime\<close> turns the format into a regular expression, one group per directive,
  and matches it at the start of the string: alternatives in order, with backtracking.
  A character class is the string of its members.
\<close>

datatype item = Group "string list list" | Literal string

fun match_classes :: "string list \<Rightarrow> string \<Rightarrow> (string \<times> string) option" where
  "match_classes [] s = Some ([], s)"
| "match_classes (c # cs) [] = None"
| "match_classes (c # cs) (x # xs) =
     (if x \<in> set c then
        (case match_classes cs xs of None \<Rightarrow> None | Some (m, r) \<Rightarrow> Some (x # m, r))
      else None)"

fun rmatch :: "item list \<Rightarrow> string \<Rightarrow> (string list \<times> string) option"
  and first_alt :: "string list list \<Rightarrow> item list \<Rightarrow> string \<Rightarrow> (string list \<times> string) option" where
  "rmatch [] s = Some ([], s)"
| "rmatch (Literal c # its) s =
     (case s of [] \<Rightarrow> None | x # xs \<Rightarrow> if x \<in> set c then rmatch its xs else None)"
| "rmatch (Group alts # its) s = first_alt alts its s"
| "first_alt [] its s = None"
| "first_alt (a # as) its s =
     (case match_classes a s of
        None \<Rightarrow> first_alt as its s
      | Some (m, r) \<Rightarrow>
          (case rmatch its r of
             None \<Rightarrow> first_alt as its s
           | Some (gs, r') \<Rightarrow> Some (m # gs, r')))"

definition digits :: string where
  "digits = ''0123456789''"

text \<open>The groups of \<^verbatim>\<open>%Y\<close>, \<^verbatim>\<open>%m\<close>, \<^verbatim>\<open>%d\<close>, \<^verbatim>\<open>%H\<close>, \<^verbatim>\<open>%M\<close>, \<^verbatim>\<open>%S\<close> and \<^verbatim>\<open>%f\<close>.\<close>

definition re_Y :: item where
  "re_Y = Group [[digits, digits, digits, digits]]"

definition re_m :: item where
  "re_m = Group [[''1'', ''012''], [''0'', ''123456789''], [''123456789'']]"

definition re_d :: item where
  "re_d = Group [[''3'', ''01''], [''12'', digits], [''0'', ''123456789''], [''123456789''],
                 ['' '', ''123456789'']]"

definition re_H :: item where
  "re_H = Group [[''2'', ''0123''], [''01'', digits], [digits]]"

definition re_M :: item where
  "re_M = Group [[''012345'', digits], [digits]]"

definition re_S :: item where
  "re_S = Group [[''6'', ''01''], [''012345'', digits], [digits]]"

definition re_f :: item where
  "re_f = Group [replicate 6 digits, replicate 5 digits, replicate 4 digits,
                 replicate 3 digits, replicate 2 digits, replicate 1 digits]"

text \<open>The two formats; letters match without regard to case.\<close>

definition format_seconds :: "item list" where
  "format_seconds = [re_Y, Literal ''-'', re_m, Literal ''-'', re_d, Literal ''Tt'',
                     re_H, Literal '':'', re_M, Literal '':'', re_S]"

definition format_fraction :: "item list" where
  "format_fraction = format_seconds @ [Literal ''.'', re_f]"

definition digit_val :: "char \<Rightarrow> nat" where
  "digit_val c = of_char c - 48"

text \<open>\<^verbatim>\<open>int(s)\<close> on a group: digits, after a blank that the day may begin with.\<close>

definition int_of_group :: "string \<Rightarrow> nat" where
  "int_of_group s = foldl (\<lambda>a c. 10 * a + digit_val c) 0 (dropWhile (\<lambda>c. c = CHR '' '') s)"

text \<open>
  What \<^verbatim>\<open>strptime\<close> builds from the groups: the fraction is filled with zeros on the
  right to six digits, and the \<^verbatim>\<open>date\<close> and \<^verbatim>\<open>datetime\<close> constructors reject the year 0,
  a day the month does not have, and a second above 59. The result is naive.
\<close>

definition build_datetime :: "string list \<Rightarrow> pyexc + datetime" where
  "build_datetime gs =
     (case gs of
        Y # m # d # H # M # S # fs \<Rightarrow>
          (let y = int_of_group Y; mo = int_of_group m; dd = int_of_group d;
               fraction = (case fs of [] \<Rightarrow> 0
                           | f # _ \<Rightarrow> int_of_group (f @ replicate (6 - length f) CHR ''0''))
           in if y < 1 then Inl (ValueError (JString ''year 0 is out of range''))
              else if dd < 1 \<or> days_in_month y mo < dd
                then Inl (ValueError (JString ''day is out of range for month''))
              else if 59 < int_of_group S then Inl (ValueError (JString ''second must be in 0..59''))
              else Inr \<lparr>year = y, month = mo, day = dd, hour = int_of_group H,
                        minute = int_of_group M, second = int_of_group S,
                        microsecond = fraction, tzinfo = None\<rparr>)
      | _ \<Rightarrow> Inl (ValueError (JString ''time data does not match format'')))"

definition strptime :: "item list \<Rightarrow> string \<Rightarrow> pyexc + datetime" where
  "strptime fmt s =
     (case rmatch fmt s of
        None \<Rightarrow> Inl (ValueError (JString ''time data does not match format''))
      | Some (gs, rest) \<Rightarrow>
          if rest \<noteq> [] then Inl (ValueError (JString ''unconverted data remains''))
          else build_datetime gs)"

definition evsdate_to_datetime :: "string \<Rightarrow> pyexc + datetime" where
  "evsdate_to_datetime s =
     (case strptime format_fraction s of
        Inr d \<Rightarrow> Inr d
      | Inl _ \<Rightarrow> strptime format_seconds s)"

section \<open>Sample inputs\<close>

text \<open>
  A process table with two running instances, a pipe that appears at the third
  \<^verbatim>\<open>CreateFile\<close> and turns to message mode at the fourth
  \<^verbatim>\<open>SetNamedPipeHandleState\<close>.
\<close>

definition ex_env :: env where
  "ex_env = \<lparr>process_iter = [\<lparr>ps_pid = 4, ps_name = ''System''\<rparr>,
                            \<lparr>ps_pid = 812, ps_name = ''EarthVolumetricStudio.exe''\<rparr>,
                            \<lparr>ps_pid = 977, ps_name = ''explorer.exe''\<rparr>,
                            \<lparr>ps_pid = 1300, ps_name = ''EarthVolumetricStudio.exe''\<rparr>],
             create_file = (\<lambda>name k. if k < 2 then Inl ''file not found'' else Inr 7),
             set_mode = (\<lambda>h k. Inr (if k < 3 then 0 else 1)),
             find_evs_executable_path = Inr ''EarthVolumetricStudio.exe'',
             popen = (\<lambda>args. Inr 1300)\<rparr>"

text \<open>A pipe that never appears, and one that appears at the sixth attempt.\<close>

definition absent_env :: env where
  "absent_env = ex_env\<lparr>create_file := (\<lambda>name k. Inl ''file not found'')\<rparr>"

definition late_env :: env where
  "late_env = ex_env\<lparr>create_file := (\<lambda>name k. if k < 5 then Inl ''file not found'' else Inr 7)\<rparr>"

text \<open>A pipe that is there at once and never turns to message mode.\<close>

definition stuck_env :: env where
  "stuck_env = ex_env\<lparr>create_file := (\<lambda>name k. Inr 7), set_mode := (\<lambda>h k. Inr 0)\<rparr>"

text \<open>
  A pipe that is there at once and on which \<^verbatim>\<open>SetNamedPipeHandleState\<close> fails the way
  the library reports failure: by raising.
\<close>

definition refusing_env :: env where
  "refusing_env = ex_env\<lparr>create_file := (\<lambda>name k. Inr 7),
                          set_mode := (\<lambda>h k. Inl ''pywintypes.error'')\<rparr>"


text \<open>
  A stand-in for the libraries: a request is written as its method name, characters
  are single bytes, and the reader knows a handful of response texts.
\<close>

definition ex_dumps :: "json \<Rightarrow> string" where
  "ex_dumps v = (case v of JObject ((_, JString m) # _) \<Rightarrow> m | _ \<Rightarrow> ''null'')"

definition ex_response :: "bool \<Rightarrow> json \<Rightarrow> json" where
  "ex_response ok v = JObject [(''Success'', JBool ok), (if ok then ''Value'' else ''Error'', v)]"

definition ex_loads :: "string \<Rightarrow> liberr + json" where
  "ex_loads s =
     (if s = ''v1'' then Inr (ex_response True (JFloat (Finite 1)))
      else if s = ''v2'' then Inr (ex_response True (JFloat (Finite 2)))
      else if s = ''ok'' then Inr (ex_response True JNull)
      else if s = ''yes'' then Inr (ex_response True (JBool True))
      else if s = ''no'' then Inr (ex_response True (JBool False))
      else if s = ''AB'' then Inr (ex_response True (JArray [JString ''A'', JString ''B'']))
      else if s = ''bad'' then Inr (ex_response False (JString ''bad module''))
      else Inl ''JSONDecodeError'')"

definition ex_encode :: "string \<Rightarrow> bytes" where
  "ex_encode s = map (\<lambda>c. of_nat (of_char c)) s"

definition ex_decode :: "bytes \<Rightarrow> liberr + string" where
  "ex_decode bs = Inr (map (\<lambda>b. char_of (unat b)) bs)"

definition ex_lib :: lib where
  "ex_lib = \<lparr>json_dumps = ex_dumps, json_loads = ex_loads,
             utf8_encode = ex_encode, utf8_decode = ex_decode\<rparr>"

definition ex_proc :: proc where
  "ex_proc = \<lparr>handle = Some 7, pid = Some 1300\<rparr>"

text \<open>A world with nothing observed yet, in which the remote will send the given texts.\<close>

definition ex_world :: "string list \<Rightarrow> world" where
  "ex_world msgs = \<lparr>trace = [], inbox = map (\<lambda>s. Inr (ex_encode s)) msgs\<rparr>"

text \<open>The history of opening the channel in \<open>ex_env\<close>, and of one call through \<open>ex_lib\<close>.\<close>

definition ex_init_events :: "event list" where
  "ex_init_events =
     retries 2 (CreateFile (pipe_name 1300)) @ [CreateFile (pipe_name 1300)] @
     retries 3 (SetNamedPipeHandleState (Some 7)) @ [SetNamedPipeHandleState (Some 7)]"

definition ex_call :: "string \<Rightarrow> event list" where
  "ex_call m = [WriteFile 7 (ex_encode (m @ [CHR 0x0A])), ReadFile 7 bufferSize]"

text \<open>A caller's block that does nothing.\<close>

definition ex_pass :: scope where
  "ex_pass p w = (Return (), p, w)"

definition ex_datetime :: datetime where
  "ex_datetime = \<lparr>year = 2020, month = 2, day = 29, hour = 23, minute = 4, second = 5,
                   microsecond = 678, tzinfo = None\<rparr>"

text \<open>An aware value of the same fields (offset zero), and a naive one in the year 999.\<close>

definition ex_aware :: datetime where
  "ex_aware = ex_datetime\<lparr>tzinfo := Some 0\<rparr>"

definition ex_early :: datetime where
  "ex_early = ex_datetime\<lparr>year := 999, day := 28\<rparr>"

section \<open>Process resolution: properties\<close>

lemma foldl_last_match:
  "foldl (\<lambda>acc x. if P x then Some x else acc) a xs =
     (case filter P xs of [] \<Rightarrow> a | _ \<Rightarrow> Some (last (filter P xs)))"
  by (induction xs arbitrary: a) (auto split: list.splits)

lemma find_pid_none: "find (\<lambda>pr. ps_pid pr = h) ps = None \<longleftrightarrow> h \<notin> ps_pid ` set ps"
  by (auto simp: find_None_iff)

lemma find_pid_some:
  "find (\<lambda>pr. ps_pid pr = h) ps = Some pr \<Longrightarrow> ps_pid pr = h \<and> h \<in> ps_pid ` set ps"
  by (auto simp: find_Some_iff)

text \<open>
  Claim C7. With the hint \<open>-1\<close> the result is the identifier of the last process of the
  enumeration whose name is the executable's, and \<open>ProcessNotFound\<close> when there is
  none; any other hint is returned when a process has that identifier and gives
  \<open>InvalidProcessId\<close> otherwise.
\<close>

theorem set_or_find_pid_resolves:
  "set_or_find_pid E (- 1) =
     (case filter (\<lambda>pr. ps_name pr = evs_exe_name) (process_iter E) of
        [] \<Rightarrow> Inl ProcessNotFound
      | ms \<Rightarrow> Inr (ps_pid (last ms)))
   \<and> (\<forall>hint. hint \<noteq> - 1 \<longrightarrow>
         set_or_find_pid E hint =
           (if hint \<in> ps_pid ` set (process_iter E) then Inr hint else Inl InvalidProcessId))"
  by (auto simp: set_or_find_pid_def psutil_Process_def foldl_last_match find_pid_none
      dest: find_pid_some split: list.splits option.splits sum.splits)

theorem set_or_find_pid_resolves_witness:
  "set_or_find_pid ex_env (- 1) = Inr 1300 \<and> set_or_find_pid ex_env 977 = Inr 977
   \<and> set_or_find_pid ex_env 5 = Inl InvalidProcessId
   \<and> set_or_find_pid (ex_env\<lparr>process_iter := []\<rparr>) (- 1) = Inl ProcessNotFound"
  using set_or_find_pid_resolves [of ex_env]
    set_or_find_pid_resolves [of "ex_env\<lparr>process_iter := []\<rparr>"]
  by (simp add: ex_env_def evs_exe_name_def)

section \<open>Requests and responses: properties\<close>

lemma ex_decode_encode: "ex_decode (ex_encode s) = Inr s"
  by (simp add: ex_decode_def ex_encode_def unat_of_nat comp_def flip: take_bit_eq_mod)

lemma write_msg_open:
  "handle p = Some h \<Longrightarrow>
   write_msg L p msg w = (Return (), emit [WriteFile h (utf8_encode L (msg @ [CHR 0x0A]))] w)"
  by (simp add: write_msg_def)

lemma read_msg_trace:
  "handle p = Some h \<Longrightarrow> trace (snd (read_msg L p w)) = trace w @ [ReadFile h bufferSize]"
  by (simp add: read_msg_def emit_def Let_def split: list.splits sum.splits)

lemma read_msg_frame:
  "handle p = Some h \<Longrightarrow> inbox w = Inr frame # rest \<Longrightarrow> length frame \<le> bufferSize \<Longrightarrow>
   read_msg L p w =
     ((case utf8_decode L frame of Inl e \<Rightarrow> Raise (LibError e) | Inr s \<Rightarrow> Return s),
      (emit [ReadFile h bufferSize] w)\<lparr>inbox := rest\<rparr>)"
  by (simp add: read_msg_def Let_def split: sum.splits)

lemma recv_json_trace:
  "handle p = Some h \<Longrightarrow> trace (snd (recv_json L p w)) = trace w @ [ReadFile h bufferSize]"
  using read_msg_trace [of p h L w]
  by (auto simp: recv_json_def split: prod.splits outcome.splits sum.splits)

lemma recv_json_frame:
  "handle p = Some h \<Longrightarrow> inbox w = Inr frame # rest \<Longrightarrow> length frame \<le> bufferSize \<Longrightarrow>
   recv_json L p w =
     ((case utf8_decode L frame of
         Inl e \<Rightarrow> Raise (LibError e)
       | Inr s \<Rightarrow> (case json_loads L s of Inl e \<Rightarrow> Raise (LibError e) | Inr v \<Rightarrow> Return v)),
      (emit [ReadFile h bufferSize] w)\<lparr>inbox := rest\<rparr>)"
  by (simp add: recv_json_def read_msg_frame split: sum.splits)

lemma request_trace:
  "handle p = Some h \<Longrightarrow>
   trace (snd (request L p method args w)) =
     trace w @ [WriteFile h (request_frame L method args), ReadFile h bufferSize]"
  by (simp add: request_def send_json_def write_msg_open recv_json_trace emit_def
      request_frame_def request_obj_def)

lemma request_frame_result:
  "handle p = Some h \<Longrightarrow> inbox w = Inr frame # rest \<Longrightarrow> length frame \<le> bufferSize \<Longrightarrow>
   request L p method args w =
     ((case utf8_decode L frame of
         Inl e \<Rightarrow> Raise (LibError e)
       | Inr s \<Rightarrow> (case json_loads L s of Inl e \<Rightarrow> Raise (LibError e) | Inr v \<Rightarrow> Return v)),
      w\<lparr>trace := trace w @ [WriteFile h (request_frame L method args), ReadFile h bufferSize],
        inbox := rest\<rparr>)"
  by (simp add: request_def send_json_def write_msg_open recv_json_frame emit_def
      request_frame_def request_obj_def)





lemma ex_request:
  assumes "ex_loads s = Inr v" and "length s \<le> bufferSize"
  shows "request ex_lib ex_proc m args \<lparr>trace = t, inbox = Inr (ex_encode s) # rest\<rparr> =
     (Return v, \<lparr>trace = t @ [WriteFile 7 (ex_encode (m @ [CHR 0x0A])), ReadFile 7 bufferSize],
                 inbox = rest\<rparr>)"
proof -
  have h: "handle ex_proc = Some 7" by (simp add: ex_proc_def)
  have l: "length (ex_encode s) \<le> bufferSize" using assms(2) by (simp add: ex_encode_def)
  show ?thesis
    using assms(1)
    by (simp add: request_frame_result [OF h _ l] request_frame_def ex_lib_def ex_dumps_def
        ex_decode_encode)
qed






section \<open>Closing: properties\<close>

text \<open>
  Claim C6. After any \<^verbatim>\<open>close\<close>, a further \<^verbatim>\<open>close\<close> returns \<^verbatim>\<open>False\<close> and changes
  nothing; without a handle \<^verbatim>\<open>close\<close> returns \<^verbatim>\<open>False\<close> and changes nothing; with a
  handle it closes that handle, clears the handle and the process identifier and
  returns \<^verbatim>\<open>True\<close>.
\<close>

theorem close_idempotent:
  assumes "close p w = (r, p', w')"
  shows "close p' w' = (False, p', w')
    \<and> (handle p = None \<longrightarrow> \<not> r \<and> p' = p \<and> w' = w)
    \<and> (\<forall>h. handle p = Some h \<longrightarrow>
          r \<and> p' = p\<lparr>handle := None, pid := None\<rparr> \<and> w' = emit [CloseHandle h] w)"
  using assms by (auto simp: close_def split: option.splits)

theorem close_idempotent_witness:
  "close ex_proc (ex_world []) =
     (True, \<lparr>handle = None, pid = None\<rparr>, \<lparr>trace = [CloseHandle 7], inbox = []\<rparr>)
   \<and> close \<lparr>handle = None, pid = None\<rparr> \<lparr>trace = [CloseHandle 7], inbox = []\<rparr> =
     (False, \<lparr>handle = None, pid = None\<rparr>, \<lparr>trace = [CloseHandle 7], inbox = []\<rparr>)"
proof -
  have c: "close ex_proc (ex_world []) =
      (True, \<lparr>handle = None, pid = None\<rparr>, \<lparr>trace = [CloseHandle 7], inbox = []\<rparr>)"
    by (simp add: close_def ex_proc_def ex_world_def emit_def)
  from close_idempotent [OF c] c show ?thesis by simp
qed

section \<open>Unwrapping a response: properties\<close>

text \<open>
  Claim C3. When the request returns an object whose \<^verbatim>\<open>Success\<close> is a boolean:
  if it is true, the call returns the object's \<^verbatim>\<open>Value\<close> as it is; if it is false,
  the call raises the error whose argument is the object's \<^verbatim>\<open>Error\<close> string. The
  world is the one the request left.
\<close>

theorem build_result_unwraps:
  assumes "request L p method args w = (Return (JObject kvs), w')"
    and "map_of kvs ''Success'' = Some (JBool b)"
  shows "(b \<longrightarrow> (\<forall>v. map_of kvs ''Value'' = Some v \<longrightarrow>
                 build_result L p method args w = (Return v, w')))
       \<and> (\<not> b \<longrightarrow> (\<forall>msg. map_of kvs ''Error'' = Some (JString msg) \<longrightarrow>
                 build_result L p method args w = (Raise (RemoteError msg), w')))"
  using assms by (simp add: build_result_def unwrap_def RemoteError_def)

lemma ex_loads_AB: "ex_loads ''AB'' = Inr (ex_response True (JArray [JString ''A'', JString ''B'']))"
  by (simp add: ex_loads_def)

lemma ex_loads_bad: "ex_loads ''bad'' = Inr (ex_response False (JString ''bad module''))"
  by (simp add: ex_loads_def)

theorem build_result_unwraps_witness:
  "fst (build_result ex_lib ex_proc ''GetModules'' [] (ex_world [''AB''])) =
     Return (JArray [JString ''A'', JString ''B''])
   \<and> fst (build_result ex_lib ex_proc ''GetModules'' [] (ex_world [''bad''])) =
     Raise (RemoteError ''bad module'')"
proof -
  have l: "length ''AB'' \<le> bufferSize" "length ''bad'' \<le> bufferSize"
    by (simp_all add: bufferSize_def)
  note a = ex_request [OF ex_loads_AB l(1), of "''GetModules''" "[]" "[]" "[]"]
  note b = ex_request [OF ex_loads_bad l(2), of "''GetModules''" "[]" "[]" "[]"]
  from build_result_unwraps [of ex_lib ex_proc "''GetModules''" "[]" "ex_world [''AB'']" _ _ True]
    build_result_unwraps [of ex_lib ex_proc "''GetModules''" "[]" "ex_world [''bad'']" _ _ False]
    a b
  show ?thesis by (simp add: ex_world_def ex_response_def)
qed

section \<open>Polling for cancellation: properties\<close>

lemma unwrap_not_canceled: "unwrap res \<noteq> Raise (CanceledByUser m)"
  by (cases res) (auto simp: unwrap_def split: sum.splits option.splits)

lemma request_not_canceled: "fst (request L p method args w) \<noteq> Raise (CanceledByUser m)"
  by (auto simp: request_def send_json_def write_msg_def recv_json_def read_msg_def Let_def
      split: option.splits list.splits sum.splits prod.splits outcome.splits)

lemma build_result_not_canceled:
  "fst (build_result L p method args w) \<noteq> Raise (CanceledByUser m)"
  using request_not_canceled [of L p "method" args w m] unwrap_not_canceled
  by (auto simp: build_result_def split: prod.splits outcome.splits)

lemma build_result_never_canceled:
  "build_result L p method args w \<noteq> (Raise (CanceledByUser m), w')"
  using build_result_not_canceled [of L p "method" args w m] by auto

text \<open>
  Claim C9. \<^verbatim>\<open>check_cancel\<close> raises \<^verbatim>\<open>CanceledByUser\<close> exactly when the
  \<^verbatim>\<open>CheckCancel\<close> call returns a true value; when the call returns a false value,
  \<^verbatim>\<open>check_cancel\<close> returns and the world is the one the call left.
\<close>

theorem check_cancel_raises_iff:
  "((\<exists>m. fst (check_cancel L p w) = Raise (CanceledByUser m)) \<longleftrightarrow>
      (\<exists>v. fst (build_result L p ''CheckCancel'' [] w) = Return v \<and> truthy v))
   \<and> (\<forall>v w'. build_result L p ''CheckCancel'' [] w = (Return v, w') \<longrightarrow>
        check_cancel L p w =
          (if truthy v then Raise (CanceledByUser ''Script canceled by user.'') else Return (), w'))"
  by (auto simp: check_cancel_def build_result_never_canceled split: prod.splits outcome.splits)

lemma ex_loads_yes: "ex_loads ''yes'' = Inr (ex_response True (JBool True))"
  by (simp add: ex_loads_def)

lemma ex_loads_no: "ex_loads ''no'' = Inr (ex_response True (JBool False))"
  by (simp add: ex_loads_def)

lemma ex_build_result:
  assumes "ex_loads s = Inr v" and "length s \<le> bufferSize"
  shows "build_result ex_lib ex_proc m args \<lparr>trace = t, inbox = Inr (ex_encode s) # rest\<rparr> =
     (unwrap v, \<lparr>trace = t @ [WriteFile 7 (ex_encode (m @ [CHR 0x0A])), ReadFile 7 bufferSize],
                 inbox = rest\<rparr>)"
  by (simp add: build_result_def ex_request [OF assms])

theorem check_cancel_raises_iff_witness:
  "check_cancel ex_lib ex_proc (ex_world [''yes'']) =
     (Raise (CanceledByUser ''Script canceled by user.''),
      \<lparr>trace = [WriteFile 7 (ex_encode (''CheckCancel'' @ [CHR 0x0A])), ReadFile 7 bufferSize],
        inbox = []\<rparr>)
   \<and> check_cancel ex_lib ex_proc (ex_world [''no'']) =
     (Return (),
      \<lparr>trace = [WriteFile 7 (ex_encode (''CheckCancel'' @ [CHR 0x0A])), ReadFile 7 bufferSize],
        inbox = []\<rparr>)"
proof -
  have l: "length ''yes'' \<le> bufferSize" "length ''no'' \<le> bufferSize"
    by (simp_all add: bufferSize_def)
  note a = ex_build_result [OF ex_loads_yes l(1), of "''CheckCancel''" "[]" "[]" "[]"]
  note b = ex_build_result [OF ex_loads_no l(2), of "''CheckCancel''" "[]" "[]" "[]"]
  from check_cancel_raises_iff [of ex_lib ex_proc "ex_world [''yes'']"]
    check_cancel_raises_iff [of ex_lib ex_proc "ex_world [''no'']"] a b
  show ?thesis by (simp add: ex_world_def ex_response_def unwrap_def)
qed


section \<open>Opening the channel: properties\<close>

lemma emit_emit: "emit ys (emit xs w) = emit (xs @ ys) w"
  by (simp add: emit_def)

lemma emit_nil: "emit [] w = w"
  by (simp add: emit_def)

lemma retries_Suc: "retries (Suc n) e = [e, Sleep 1] @ retries n e"
  by (simp add: retries_def)

lemma open_loop_opens:
  "0 < a \<Longrightarrow> \<forall>j<n. \<exists>e. create_file E name (k + j) = Inl e \<Longrightarrow>
   create_file E name (k + n) = Inr h \<Longrightarrow>
   open_loop E name a k p w =
     Some (p\<lparr>handle := Some h\<rparr>, emit (retries n (CreateFile name) @ [CreateFile name]) w)"
proof (induction n arbitrary: k w)
  case 0
  then show ?case by (subst open_loop.simps) (simp add: retries_def)
next
  case (Suc n)
  from Suc.prems(2) obtain e where e: "create_file E name k = Inl e" by force
  have "\<forall>j<n. \<exists>e. create_file E name (Suc k + j) = Inl e"
    using Suc.prems(2) by (metis Suc_less_eq add_Suc_right add_Suc_shift)
  moreover have "create_file E name (Suc k + n) = Inr h" using Suc.prems(3) by simp
  ultimately have "open_loop E name a (Suc k) p (emit [CreateFile name, Sleep 1] w) =
      Some (p\<lparr>handle := Some h\<rparr>,
            emit (retries n (CreateFile name) @ [CreateFile name]) (emit [CreateFile name, Sleep 1] w))"
    using Suc.IH [OF Suc.prems(1)] by blast
  then show ?case
    using e Suc.prems(1) by (subst open_loop.simps) (simp add: emit_emit retries_Suc)
qed

lemma open_loop_needs_success:
  assumes "open_loop E name a k p w = Some y"
  shows "a \<le> 0 \<or> (\<exists>j\<ge>k. \<exists>h. create_file E name j = Inr h)"
proof (rule open_loop.raw_induct
    [where P = "\<lambda>E name a k p w y. a \<le> 0 \<or> (\<exists>j\<ge>k. \<exists>h. create_file E name j = Inr h)",
      OF _ assms])
  fix f :: "env \<Rightarrow> string \<Rightarrow> int \<Rightarrow> nat \<Rightarrow> proc \<Rightarrow> world \<Rightarrow> (proc \<times> world) option"
    and E name a k p w y
  assume IH: "\<And>E name a k p w y. f E name a k p w = Some y \<Longrightarrow>
                a \<le> 0 \<or> (\<exists>j\<ge>k. \<exists>h. create_file E name j = Inr h)"
    and step: "(if 0 < a then
                  (case create_file E name k of
                     Inl x \<Rightarrow> f E name a (Suc k) p (emit [CreateFile name, Sleep 1] w)
                   | Inr h \<Rightarrow> Some (p\<lparr>handle := Some h\<rparr>, emit [CreateFile name] w))
                else Some (p, w)) = Some y"
  show "a \<le> 0 \<or> (\<exists>j\<ge>k. \<exists>h. create_file E name j = Inr h)"
  proof (cases "0 < a")
    case False
    then show ?thesis by simp
  next
    case True
    show ?thesis
    proof (cases "create_file E name k")
      case (Inl e)
      with True step have "f E name a (Suc k) p (emit [CreateFile name, Sleep 1] w) = Some y"
        by simp
      from IH [OF this] True show ?thesis by (auto intro: Suc_leD)
    next
      case (Inr h)
      then show ?thesis by auto
    qed
  qed
qed

lemma open_loop_never_returns:
  assumes "0 < a" and "\<forall>j. \<exists>e. create_file E name j = Inl e"
  shows "open_loop E name a k p w = None"
proof (cases "open_loop E name a k p w")
  case None
  then show ?thesis .
next
  case (Some y)
  from open_loop_needs_success [OF this] assms show ?thesis by (metis Inl_Inr_False not_le)
qed

lemma mode_loop_never_ready:
  "\<forall>j<nat a. SetNamedPipeHandleState_call E (handle p) (k + j) = Inr 0 \<Longrightarrow>
   mode_loop E a k p w =
     (Return False, emit (retries (nat a) (SetNamedPipeHandleState (handle p))) w)"
proof (induction E a k p w rule: mode_loop.induct)
  case (1 E a k p w)
  show ?case
  proof (cases "0 < a")
    case False
    then show ?thesis by (subst mode_loop.simps) (simp add: retries_def emit_nil)
  next
    case True
    then have n: "nat a = Suc (nat (a - 1))" by simp
    from True 1(2) have c: "SetNamedPipeHandleState_call E (handle p) k = Inr 0"
      by (metis add.right_neutral zero_less_nat_eq)
    have "\<forall>j<nat (a - 1). SetNamedPipeHandleState_call E (handle p) (Suc k + j) = Inr 0"
      using 1(2) n by (metis Suc_less_eq add_Suc_right add_Suc_shift)
    from 1(1) [OF True c _ this] have
      "mode_loop E (a - 1) (Suc k) p (emit [SetNamedPipeHandleState (handle p), Sleep 1] w) =
        (Return False, emit (retries (nat (a - 1)) (SetNamedPipeHandleState (handle p)))
           (emit [SetNamedPipeHandleState (handle p), Sleep 1] w))"
      by simp
    then show ?thesis
      using True c by (subst mode_loop.simps) (simp add: n emit_emit retries_Suc)
  qed
qed

lemma mode_loop_ready:
  "n < nat a \<Longrightarrow> \<forall>j<n. SetNamedPipeHandleState_call E (handle p) (k + j) = Inr 0 \<Longrightarrow>
   SetNamedPipeHandleState_call E (handle p) (k + n) = Inr r \<Longrightarrow> r \<noteq> 0 \<Longrightarrow>
   mode_loop E a k p w =
     (Return True, emit (retries n (SetNamedPipeHandleState (handle p))
                         @ [SetNamedPipeHandleState (handle p)]) w)"
proof (induction n arbitrary: a k w)
  case 0
  then show ?case by (subst mode_loop.simps) (simp add: retries_def)
next
  case (Suc n)
  from Suc.prems(1) have a: "0 < a" "n < nat (a - 1)" by simp_all
  from Suc.prems(2) have c: "SetNamedPipeHandleState_call E (handle p) k = Inr 0"
    by (metis add.right_neutral zero_less_Suc)
  have "\<forall>j<n. SetNamedPipeHandleState_call E (handle p) (Suc k + j) = Inr 0"
    using Suc.prems(2) by (metis Suc_less_eq add_Suc_right add_Suc_shift)
  moreover have "SetNamedPipeHandleState_call E (handle p) (Suc k + n) = Inr r"
    using Suc.prems(3) by simp
  ultimately have
    "mode_loop E (a - 1) (Suc k) p (emit [SetNamedPipeHandleState (handle p), Sleep 1] w) =
      (Return True, emit (retries n (SetNamedPipeHandleState (handle p))
                          @ [SetNamedPipeHandleState (handle p)])
         (emit [SetNamedPipeHandleState (handle p), Sleep 1] w))"
    using Suc.IH [OF a(2) _ _ Suc.prems(4)] by blast
  then show ?case
    using a(1) c by (subst mode_loop.simps) (simp add: emit_emit retries_Suc)
qed


text \<open>
  What the second loop does with the values it tests for. Once the pipe is open: if the
  first \<open>timeout\<close> calls of \<^verbatim>\<open>SetNamedPipeHandleState\<close> all return 0 (none at all when
  \<open>timeout\<close> is negative), the constructor makes exactly those calls, each followed by a
  sleep of one second, and raises \<open>ConnectionRefused\<close>; if an earlier call returns a
  non-zero value after calls that returned 0, the constructor returns the channel and
  makes no further call.
\<close>

lemma init_refused_after_timeout_attempts:
  assumes "open_loop E (pipe_name pid0) 5 0 \<lparr>handle = None, pid = Some pid0\<rparr> w = Some (p, w1)"
  shows "((\<forall>j<nat timeout. SetNamedPipeHandleState_call E (handle p) j = Inr 0) \<longrightarrow>
            EvsProcess_init E pid0 timeout w =
              Some (Raise ConnectionRefused,
                    emit (retries (nat timeout) (SetNamedPipeHandleState (handle p))) w1))
       \<and> (\<forall>n r. n < nat timeout
              \<and> (\<forall>j<n. SetNamedPipeHandleState_call E (handle p) j = Inr 0)
              \<and> SetNamedPipeHandleState_call E (handle p) n = Inr r \<and> r \<noteq> 0 \<longrightarrow>
            EvsProcess_init E pid0 timeout w =
              Some (Return p,
                    emit (retries n (SetNamedPipeHandleState (handle p))
                          @ [SetNamedPipeHandleState (handle p)]) w1))"
proof (intro conjI impI allI)
  assume "\<forall>j<nat timeout. SetNamedPipeHandleState_call E (handle p) j = Inr 0"
  then have "mode_loop E timeout 0 p w1 =
      (Return False, emit (retries (nat timeout) (SetNamedPipeHandleState (handle p))) w1)"
    using mode_loop_never_ready [of timeout E p 0 w1] by simp
  then show "EvsProcess_init E pid0 timeout w =
      Some (Raise ConnectionRefused,
            emit (retries (nat timeout) (SetNamedPipeHandleState (handle p))) w1)"
    using assms by (simp add: EvsProcess_init_def)
next
  fix n r
  assume a: "n < nat timeout
      \<and> (\<forall>j<n. SetNamedPipeHandleState_call E (handle p) j = Inr 0)
      \<and> SetNamedPipeHandleState_call E (handle p) n = Inr r \<and> r \<noteq> 0"
  then have "mode_loop E timeout 0 p w1 =
      (Return True, emit (retries n (SetNamedPipeHandleState (handle p))
                          @ [SetNamedPipeHandleState (handle p)]) w1)"
    using mode_loop_ready [of n timeout E p 0 r w1] by simp
  then show "EvsProcess_init E pid0 timeout w =
      Some (Return p, emit (retries n (SetNamedPipeHandleState (handle p))
                            @ [SetNamedPipeHandleState (handle p)]) w1)"
    using assms by (simp add: EvsProcess_init_def)
qed

lemma stuck_open:
  "open_loop stuck_env name 5 0 p w = Some (p\<lparr>handle := Some 7\<rparr>, emit [CreateFile name] w)"
  using open_loop_opens [of 5 0 stuck_env name 0 7 p w]
  by (simp add: stuck_env_def ex_env_def retries_def)

lemma ex_open:
  "open_loop ex_env name 5 0 p w =
     Some (p\<lparr>handle := Some 7\<rparr>, emit (retries 2 (CreateFile name) @ [CreateFile name]) w)"
  using open_loop_opens [of 5 2 ex_env name 0 7 p w]
  by (simp add: ex_env_def)

lemma init_examples:
  "EvsProcess_init stuck_env 1300 3 (ex_world []) =
     Some (Raise ConnectionRefused,
           emit (retries 3 (SetNamedPipeHandleState (Some 7)))
             (emit [CreateFile (pipe_name 1300)] (ex_world [])))
   \<and> EvsProcess_init ex_env 1300 60 (ex_world []) =
     Some (Return ex_proc,
           emit (retries 3 (SetNamedPipeHandleState (Some 7)) @ [SetNamedPipeHandleState (Some 7)])
             (emit (retries 2 (CreateFile (pipe_name 1300)) @ [CreateFile (pipe_name 1300)])
                (ex_world [])))"
proof -
  note a = init_refused_after_timeout_attempts
    [where E = stuck_env and ?pid0.0 = 1300 and w = "ex_world []" and timeout = 3, OF stuck_open]
  note b = init_refused_after_timeout_attempts
    [where E = ex_env and ?pid0.0 = 1300 and w = "ex_world []" and timeout = 60, OF ex_open]
  have c: "\<forall>j<nat 3. SetNamedPipeHandleState_call stuck_env (Some 7) j = Inr 0"
    by (simp add: SetNamedPipeHandleState_call_def stuck_env_def ex_env_def)
  have d: "(3::nat) < nat 60
      \<and> (\<forall>j<3. SetNamedPipeHandleState_call ex_env (Some 7) j = Inr 0)
      \<and> SetNamedPipeHandleState_call ex_env (Some 7) 3 = Inr 1 \<and> (1::int) \<noteq> 0"
    by (simp add: SetNamedPipeHandleState_call_def ex_env_def)
  from a c b d show ?thesis by (simp add: ex_proc_def)
qed

lemma init_negative_timeout:
  "EvsProcess_init stuck_env 1300 (- 1) (ex_world []) =
     Some (Raise ConnectionRefused, \<lparr>trace = [CreateFile (pipe_name 1300)], inbox = []\<rparr>)"
  by (simp add: EvsProcess_init_def stuck_open mode_loop.simps emit_def ex_world_def)

lemma refusing_open:
  "open_loop refusing_env name 5 0 p w = Some (p\<lparr>handle := Some 7\<rparr>, emit [CreateFile name] w)"
  using open_loop_opens [of 5 0 refusing_env name 0 7 p w]
  by (simp add: refusing_env_def ex_env_def retries_def)

text \<open>
  Claim C2 against the code. The second loop has no \<^verbatim>\<open>try\<close>: when the pipe is open and
  \<^verbatim>\<open>SetNamedPipeHandleState\<close> fails, which the library reports by raising, the constructor
  lets that error out after a single attempt, without a sleep and without
  \<open>ConnectionRefused\<close>, although three attempts were allowed.
\<close>

theorem mode_failure_not_retried:
  "EvsProcess_init refusing_env 1300 3 (ex_world []) =
     Some (Raise (LibError ''pywintypes.error''),
           \<lparr>trace = [CreateFile (pipe_name 1300), SetNamedPipeHandleState (Some 7)], inbox = []\<rparr>)
   \<and> mode_attempts
         \<lparr>trace = [CreateFile (pipe_name 1300), SetNamedPipeHandleState (Some 7)], inbox = []\<rparr> = 1
   \<and> Sleep 1 \<notin> set [CreateFile (pipe_name 1300), SetNamedPipeHandleState (Some 7)]
   \<and> LibError ''pywintypes.error'' \<noteq> ConnectionRefused"
proof -
  have c: "SetNamedPipeHandleState_call refusing_env (Some 7) 0 = Inl ''pywintypes.error''"
    by (simp add: SetNamedPipeHandleState_call_def refusing_env_def)
  have m: "mode_loop refusing_env 3 0 \<lparr>handle = Some 7, pid = Some 1300\<rparr> w =
      (Raise (LibError ''pywintypes.error''), emit [SetNamedPipeHandleState (Some 7)] w)" for w
    by (subst mode_loop.simps) (simp add: c)
  have a: "EvsProcess_init refusing_env 1300 3 (ex_world []) =
     Some (Raise (LibError ''pywintypes.error''),
           \<lparr>trace = [CreateFile (pipe_name 1300), SetNamedPipeHandleState (Some 7)], inbox = []\<rparr>)"
    by (simp add: EvsProcess_init_def refusing_open m emit_def ex_world_def)
  have b: "mode_attempts
         \<lparr>trace = [CreateFile (pipe_name 1300), SetNamedPipeHandleState (Some 7)], inbox = []\<rparr> = 1"
    by (simp add: mode_attempts_def)
  have d: "LibError ''pywintypes.error'' \<noteq> ConnectionRefused"
    by (simp add: ConnectionRefused_def)
  from a b d show ?thesis by simp
qed

text \<open>
  Claim C4 against the code. The first loop never lowers \<^verbatim>\<open>attempts_remaining\<close>: when
  the pipe never appears the constructor does not return, and when it appears at the
  sixth attempt the loop has tried six times and holds a valid handle.
\<close>

theorem open_loop_unbounded:
  "EvsProcess_init absent_env 1300 60 (ex_world []) = None
   \<and> open_loop late_env (pipe_name 1300) 5 0 \<lparr>handle = None, pid = Some 1300\<rparr> (ex_world []) =
       Some (ex_proc,
             \<lparr>trace = retries 5 (CreateFile (pipe_name 1300)) @ [CreateFile (pipe_name 1300)],
               inbox = []\<rparr>)"
proof
  have "open_loop absent_env (pipe_name 1300) 5 0 \<lparr>handle = None, pid = Some 1300\<rparr> (ex_world []) = None"
    by (rule open_loop_never_returns) (simp_all add: absent_env_def)
  then show "EvsProcess_init absent_env 1300 60 (ex_world []) = None"
    by (simp add: EvsProcess_init_def)
next
  show "open_loop late_env (pipe_name 1300) 5 0 \<lparr>handle = None, pid = Some 1300\<rparr> (ex_world []) =
       Some (ex_proc,
             \<lparr>trace = retries 5 (CreateFile (pipe_name 1300)) @ [CreateFile (pipe_name 1300)],
               inbox = []\<rparr>)"
    using open_loop_opens [of 5 5 late_env "pipe_name 1300" 0 7
        "\<lparr>handle = None, pid = Some 1300\<rparr>" "ex_world []"]
    by (simp add: late_env_def ex_proc_def emit_def ex_world_def)
qed


section \<open>Session flows: properties\<close>

lemma build_result_returns_open:
  assumes "build_result L p method args w = (Return v, w1)"
  shows "\<exists>h. handle p = Some h
      \<and> trace w1 = trace w @ [WriteFile h (request_frame L method args), ReadFile h bufferSize]"
proof (cases "handle p")
  case None
  then have "fst (request L p method args w) = Raise (LibError ''invalid handle'')"
    by (simp add: request_def send_json_def write_msg_def)
  with assms show ?thesis
    by (auto simp: build_result_def split: prod.splits outcome.splits)
next
  case (Some h)
  have "w1 = snd (request L p method args w)"
    using assms by (auto simp: build_result_def split: prod.splits outcome.splits)
  with Some request_trace [OF Some, of L "method" args w] show ?thesis by simp
qed

lemma on_except_open:
  "handle p = Some h \<Longrightarrow>
   on_except e p w = (Raise e, p\<lparr>handle := None, pid := None\<rparr>, emit [CloseHandle h] w)"
  by (simp add: on_except_def close_def)

lemma session_version_mismatch:
  "get_api_version L p w = (Return v, w1) \<Longrightarrow> \<not> py_eq_float v 1 \<Longrightarrow>
   session L auto_shutdown auto_wait body p w = on_except UnsupportedApiVersion p w1"
  by (simp add: session_def)

text \<open>
  Claim C5. In both flows, once the channel is open and the \<^verbatim>\<open>Version\<close> call returns a
  value that is not equal to \<open>1.0\<close>, the flow raises \<open>UnsupportedApiVersion\<close>; after the
  frames of the \<^verbatim>\<open>Version\<close> call the history holds the closing of the handle and
  nothing else, whatever the options and the caller's block.
\<close>

theorem version_mismatch_stops_flow:
  assumes init: "EvsProcess_init E pid1 timeout wi = Some (Return p, w0)"
    and ver: "get_api_version L p w0 = (Return v, w1)"
    and ne: "\<not> py_eq_float v 1"
  shows "\<exists>h. handle p = Some h
     \<and> trace w1 = trace w0 @ [WriteFile h (request_frame L ''Version'' []), ReadFile h bufferSize]
     \<and> (set_or_find_pid E pid0 = Inr pid1 \<longrightarrow>
          connect_to_existing L E pid0 auto_shutdown timeout auto_wait body wi =
            Some (Raise UnsupportedApiVersion, Some (p\<lparr>handle := None, pid := None\<rparr>),
                  emit [CloseHandle h] w1))
     \<and> (\<forall>exe w. find_evs_executable_path E = Inr exe
            \<and> popen E (if start_minimized then [exe, ''-n'', ''-w'', ''-m'']
                        else [exe, ''-n'', ''-w'']) = Inr pid1
            \<and> wi = emit [Popen (if start_minimized then [exe, ''-n'', ''-w'', ''-m'']
                                 else [exe, ''-n'', ''-w'']), Sleep 1] w \<longrightarrow>
          start_new L E auto_shutdown timeout auto_wait start_minimized body w =
            Some (Raise UnsupportedApiVersion, Some (p\<lparr>handle := None, pid := None\<rparr>),
                  emit [CloseHandle h] w1))"
proof -
  from ver obtain h where h: "handle p = Some h"
    and t: "trace w1 = trace w0 @ [WriteFile h (request_frame L ''Version'' []), ReadFile h bufferSize]"
    using build_result_returns_open [of L p "''Version''" "[]" w0 v w1]
    by (auto simp: get_api_version_def)
  have s: "session L auto_shutdown auto_wait body p w0 =
      (Raise UnsupportedApiVersion, p\<lparr>handle := None, pid := None\<rparr>, emit [CloseHandle h] w1)"
    by (simp add: session_version_mismatch [OF ver ne] on_except_open [OF h])
  have c: "with_channel L auto_shutdown auto_wait body (EvsProcess_init E pid1 timeout wi) =
      Some (Raise UnsupportedApiVersion, Some (p\<lparr>handle := None, pid := None\<rparr>),
            emit [CloseHandle h] w1)"
    by (simp add: with_channel_def init s)
  show ?thesis
    using h t c by (auto simp: connect_to_existing_def start_new_def Let_def)
qed


lemma ex_init:
  "EvsProcess_init ex_env 1300 60 w = Some (Return ex_proc, emit ex_init_events w)"
proof -
  have "mode_loop ex_env 60 0 ex_proc
          (emit (retries 2 (CreateFile (pipe_name 1300)) @ [CreateFile (pipe_name 1300)]) w) =
        (Return True,
         emit (retries 3 (SetNamedPipeHandleState (handle ex_proc))
               @ [SetNamedPipeHandleState (handle ex_proc)])
           (emit (retries 2 (CreateFile (pipe_name 1300)) @ [CreateFile (pipe_name 1300)]) w))"
    by (rule mode_loop_ready [where r = 1])
      (simp_all add: SetNamedPipeHandleState_call_def ex_env_def ex_proc_def)
  then show ?thesis
    by (simp add: EvsProcess_init_def ex_open ex_proc_def emit_emit ex_init_events_def)
qed

lemma ex_call_result:
  assumes "ex_loads s = Inr v" and "length s \<le> bufferSize"
  shows "build_result ex_lib ex_proc m [] \<lparr>trace = t, inbox = Inr (ex_encode s) # rest\<rparr> =
     (unwrap v, \<lparr>trace = t @ ex_call m, inbox = rest\<rparr>)"
  by (simp add: ex_build_result [OF assms] ex_call_def)

lemma ex_loads_v1: "ex_loads ''v1'' = Inr (ex_response True (JFloat (Finite 1)))"
  by (simp add: ex_loads_def)

lemma ex_loads_v2: "ex_loads ''v2'' = Inr (ex_response True (JFloat (Finite 2)))"
  by (simp add: ex_loads_def)

lemma ex_loads_ok: "ex_loads ''ok'' = Inr (ex_response True JNull)"
  by (simp add: ex_loads_def)

lemma ex_short: "length ''v1'' \<le> bufferSize" "length ''v2'' \<le> bufferSize"
  "length ''ok'' \<le> bufferSize" "length ''bad'' \<le> bufferSize"
  by (simp_all add: bufferSize_def)

theorem version_mismatch_stops_flow_witness:
  "connect_to_existing ex_lib ex_env (- 1) False 60 True ex_pass (ex_world [''v2'']) =
     Some (Raise UnsupportedApiVersion, Some \<lparr>handle = None, pid = None\<rparr>,
           \<lparr>trace = ex_init_events @ ex_call ''Version'' @ [CloseHandle 7], inbox = []\<rparr>)
   \<and> start_new ex_lib ex_env True 60 True False ex_pass (ex_world [''v2'']) =
     Some (Raise UnsupportedApiVersion, Some \<lparr>handle = None, pid = None\<rparr>,
           \<lparr>trace = [Popen [''EarthVolumetricStudio.exe'', ''-n'', ''-w''], Sleep 1]
                     @ ex_init_events @ ex_call ''Version'' @ [CloseHandle 7], inbox = []\<rparr>)"
proof -
  let ?w = "ex_world [''v2'']"
  let ?args = "[''EarthVolumetricStudio.exe'', ''-n'', ''-w'']"
  have v: "get_api_version ex_lib ex_proc \<lparr>trace = t, inbox = [Inr (ex_encode ''v2'')]\<rparr> =
      (Return (JFloat (Finite 2)), \<lparr>trace = t @ ex_call ''Version'', inbox = []\<rparr>)" for t
    by (simp add: get_api_version_def ex_call_result [OF ex_loads_v2 ex_short(2)]
        unwrap_def ex_response_def)
  have ne: "\<not> py_eq_float (JFloat (Finite 2)) 1" by simp
  have i1: "EvsProcess_init ex_env 1300 60 ?w =
      Some (Return ex_proc, \<lparr>trace = ex_init_events, inbox = [Inr (ex_encode ''v2'')]\<rparr>)"
    by (simp add: ex_init emit_def ex_world_def)
  have i2: "EvsProcess_init ex_env 1300 60 (emit [Popen ?args, Sleep 1] ?w) =
      Some (Return ex_proc, \<lparr>trace = [Popen ?args, Sleep 1] @ ex_init_events,
                               inbox = [Inr (ex_encode ''v2'')]\<rparr>)"
    by (simp add: ex_init emit_def ex_world_def)
  have r: "set_or_find_pid ex_env (- 1) = Inr 1300"
    by (simp add: set_or_find_pid_def ex_env_def evs_exe_name_def)
  have e: "find_evs_executable_path ex_env = Inr ''EarthVolumetricStudio.exe''"
    "popen ex_env ?args = Inr 1300"
    by (simp_all add: ex_env_def)
  from version_mismatch_stops_flow [OF i1 v ne, of "- 1" False True ex_pass False] r
  have a: "connect_to_existing ex_lib ex_env (- 1) False 60 True ex_pass ?w =
     Some (Raise UnsupportedApiVersion, Some \<lparr>handle = None, pid = None\<rparr>,
           \<lparr>trace = ex_init_events @ ex_call ''Version'' @ [CloseHandle 7], inbox = []\<rparr>)"
    by (simp add: ex_proc_def emit_def)
  from version_mismatch_stops_flow [OF i2 v ne, of "- 1" True True ex_pass False] e
  have b: "start_new ex_lib ex_env True 60 True False ex_pass ?w =
     Some (Raise UnsupportedApiVersion, Some \<lparr>handle = None, pid = None\<rparr>,
           \<lparr>trace = [Popen ?args, Sleep 1] @ ex_init_events @ ex_call ''Version''
                     @ [CloseHandle 7], inbox = []\<rparr>)"
    by (simp add: ex_proc_def emit_def)
  from a b show ?thesis by simp
qed

text \<open>
  The exits of the \<^verbatim>\<open>try\<close> statement: a failure of the handshake or of the caller's
  block goes through \<open>on_except\<close>, which closes and re-raises; a normal exit closes
  after the shutdown, when that returns; a shutdown that raises leaves the statement
  with the channel as the block left it.
\<close>

lemma session_handshake_raises:
  "get_api_version L p w = (Raise e, w1) \<Longrightarrow>
   session L auto_shutdown auto_wait body p w = on_except e p w1"
  by (simp add: session_def)

lemma session_body_raises:
  "get_api_version L p w = (Return v, w1) \<Longrightarrow> py_eq_float v 1 \<Longrightarrow>
   (if auto_wait then wait_for_ready L p w1 else (Return JNull, w1)) = (Return u, w2) \<Longrightarrow>
   body p w2 = (Raise e, p3, w3) \<Longrightarrow>
   session L auto_shutdown auto_wait body p w = on_except e p3 w3"
  by (simp add: session_def)

lemma session_normal_exit:
  "get_api_version L p w = (Return v, w1) \<Longrightarrow> py_eq_float v 1 \<Longrightarrow>
   (if auto_wait then wait_for_ready L p w1 else (Return JNull, w1)) = (Return u, w2) \<Longrightarrow>
   body p w2 = (Return (), p3, w3) \<Longrightarrow>
   (if auto_shutdown then shutdown L p3 w3 else (Return JNull, w3)) = (Return u', w4) \<Longrightarrow>
   session L auto_shutdown auto_wait body p w =
     (Return (), fst (snd (close p3 w4)), snd (snd (close p3 w4)))"
  by (simp add: session_def on_else_def split: prod.splits)

lemma session_shutdown_raises:
  "get_api_version L p w = (Return v, w1) \<Longrightarrow> py_eq_float v 1 \<Longrightarrow>
   (if auto_wait then wait_for_ready L p w1 else (Return JNull, w1)) = (Return u, w2) \<Longrightarrow>
   body p w2 = (Return (), p3, w3) \<Longrightarrow>
   shutdown L p3 w3 = (Raise e, w4) \<Longrightarrow>
   session L True auto_wait body p w = (Raise e, p3, w4)"
  by (simp add: session_def on_else_def)

lemma ex_session_shutdown_fails:
  "session ex_lib True True ex_pass ex_proc
     \<lparr>trace = t, inbox = [Inr (ex_encode ''v1''), Inr (ex_encode ''ok''), Inr (ex_encode ''bad'')]\<rparr> =
   (Raise (RemoteError ''bad module''), ex_proc,
    \<lparr>trace = t @ ex_call ''Version'' @ ex_call ''WaitForReady'' @ ex_call ''Shutdown'',
      inbox = []\<rparr>)"
proof -
  have v: "get_api_version ex_lib ex_proc
      \<lparr>trace = t, inbox = [Inr (ex_encode ''v1''), Inr (ex_encode ''ok''), Inr (ex_encode ''bad'')]\<rparr> =
      (Return (JFloat (Finite 1)),
       \<lparr>trace = t @ ex_call ''Version'', inbox = [Inr (ex_encode ''ok''), Inr (ex_encode ''bad'')]\<rparr>)"
    by (simp add: get_api_version_def ex_call_result [OF ex_loads_v1 ex_short(1)]
        unwrap_def ex_response_def)
  have r: "wait_for_ready ex_lib ex_proc
      \<lparr>trace = t @ ex_call ''Version'', inbox = [Inr (ex_encode ''ok''), Inr (ex_encode ''bad'')]\<rparr> =
      (Return JNull,
       \<lparr>trace = t @ ex_call ''Version'' @ ex_call ''WaitForReady'',
         inbox = [Inr (ex_encode ''bad'')]\<rparr>)"
    using ex_call_result [OF ex_loads_ok ex_short(3), of "''WaitForReady''"
        "t @ ex_call ''Version''" "[Inr (ex_encode ''bad'')]"]
    by (simp add: wait_for_ready_def unwrap_def ex_response_def)
  have s: "shutdown ex_lib ex_proc
      \<lparr>trace = t @ ex_call ''Version'' @ ex_call ''WaitForReady'',
        inbox = [Inr (ex_encode ''bad'')]\<rparr> =
      (Raise (RemoteError ''bad module''),
       \<lparr>trace = t @ ex_call ''Version'' @ ex_call ''WaitForReady'' @ ex_call ''Shutdown'',
         inbox = []\<rparr>)"
    using ex_call_result [OF ex_loads_bad ex_short(4), of "''Shutdown''"
        "t @ ex_call ''Version'' @ ex_call ''WaitForReady''" "[]"]
    by (simp add: shutdown_def unwrap_def ex_response_def RemoteError_def)
  show ?thesis
    by (simp add: session_def v r s on_else_def ex_pass_def)
qed

text \<open>
  Claim C1 against the code. The caller's block ends normally, \<^verbatim>\<open>auto_shutdown\<close> is
  set and the remote answers \<^verbatim>\<open>Shutdown\<close> with a failure: both flows raise that failure
  with the handle still open, and the history holds no closing of it.
\<close>

theorem shutdown_failure_leaves_channel_open:
  "connect_to_existing ex_lib ex_env (- 1) True 60 True ex_pass (ex_world [''v1'', ''ok'', ''bad'']) =
     Some (Raise (RemoteError ''bad module''), Some ex_proc,
           \<lparr>trace = ex_init_events @ ex_call ''Version'' @ ex_call ''WaitForReady''
                     @ ex_call ''Shutdown'', inbox = []\<rparr>)
   \<and> start_new ex_lib ex_env True 60 True False ex_pass (ex_world [''v1'', ''ok'', ''bad'']) =
     Some (Raise (RemoteError ''bad module''), Some ex_proc,
           \<lparr>trace = [Popen [''EarthVolumetricStudio.exe'', ''-n'', ''-w''], Sleep 1]
                     @ ex_init_events @ ex_call ''Version'' @ ex_call ''WaitForReady''
                     @ ex_call ''Shutdown'', inbox = []\<rparr>)
   \<and> handle ex_proc = Some 7
   \<and> CloseHandle 7 \<notin> set ([Popen [''EarthVolumetricStudio.exe'', ''-n'', ''-w''], Sleep 1]
                     @ ex_init_events @ ex_call ''Version'' @ ex_call ''WaitForReady''
                     @ ex_call ''Shutdown'')"
proof -
  have r: "set_or_find_pid ex_env (- 1) = Inr 1300"
    by (simp add: set_or_find_pid_def ex_env_def evs_exe_name_def)
  have e: "find_evs_executable_path ex_env = Inr ''EarthVolumetricStudio.exe''"
    "popen ex_env args = Inr 1300" for args
    by (simp_all add: ex_env_def)
  have n: "CloseHandle 7 \<notin> set (retries k ev)" if "ev \<noteq> CloseHandle 7" for k ev
    using that by (induction k) (simp_all add: retries_def)
  have a: "connect_to_existing ex_lib ex_env (- 1) True 60 True ex_pass
             (ex_world [''v1'', ''ok'', ''bad'']) =
     Some (Raise (RemoteError ''bad module''), Some ex_proc,
           \<lparr>trace = ex_init_events @ ex_call ''Version'' @ ex_call ''WaitForReady''
                     @ ex_call ''Shutdown'', inbox = []\<rparr>)"
    by (simp add: connect_to_existing_def r with_channel_def ex_init emit_def ex_world_def
        ex_session_shutdown_fails)
  have b: "start_new ex_lib ex_env True 60 True False ex_pass (ex_world [''v1'', ''ok'', ''bad'']) =
     Some (Raise (RemoteError ''bad module''), Some ex_proc,
           \<lparr>trace = [Popen [''EarthVolumetricStudio.exe'', ''-n'', ''-w''], Sleep 1]
                     @ ex_init_events @ ex_call ''Version'' @ ex_call ''WaitForReady''
                     @ ex_call ''Shutdown'', inbox = []\<rparr>)"
    by (simp add: start_new_def e with_channel_def ex_init emit_def ex_world_def
        ex_session_shutdown_fails)
  have c: "handle ex_proc = Some 7" by (simp add: ex_proc_def)
  have d: "CloseHandle 7 \<notin> set ([Popen [''EarthVolumetricStudio.exe'', ''-n'', ''-w''], Sleep 1]
                     @ ex_init_events @ ex_call ''Version'' @ ex_call ''WaitForReady''
                     @ ex_call ''Shutdown'')"
    by (simp add: ex_init_events_def ex_call_def n)
  from a b c d show ?thesis by blast
qed


section \<open>Date helpers: properties\<close>

lemma digit_char_numerals:
  "digit_char 0 = CHR ''0''" "digit_char 1 = CHR ''1''" "digit_char 2 = CHR ''2''"
  "digit_char 3 = CHR ''3''" "digit_char 4 = CHR ''4''" "digit_char 5 = CHR ''5''"
  "digit_char 6 = CHR ''6''" "digit_char 7 = CHR ''7''" "digit_char 8 = CHR ''8''"
  "digit_char 9 = CHR ''9''" "digit_char (Suc 0) = CHR ''1''"
  by (simp_all add: digit_char_def)

lemma below_ten: "n < 10 \<Longrightarrow> n \<in> {0, 1, 2, 3, 4, 5, 6, 7, 8, 9::nat}"
  by auto

lemma digit_char_in_digits: "n < 10 \<Longrightarrow> digit_char n \<in> set digits"
  by (drule below_ten) (auto simp: digit_char_numerals digits_def)

lemma digit_val_digit_char: "n < 10 \<Longrightarrow> digit_val (digit_char n) = n"
  by (drule below_ten) (auto simp: digit_char_numerals digit_val_def)

lemma digit_char_not_blank: "n < 10 \<Longrightarrow> digit_char n \<noteq> CHR '' ''"
  by (drule below_ten) (auto simp: digit_char_numerals)

lemma length_fixed: "length (fixed w n) = w"
  by (induction w arbitrary: n) simp_all

lemma fixed_zero: "fixed w 0 = replicate w CHR ''0''"
  by (induction w) (simp_all add: digit_char_numerals replicate_append_same)

lemma zfill_snoc: "length s \<le> w \<Longrightarrow> zfill (Suc w) (s @ [c]) = zfill w s @ [c]"
  by (simp add: zfill_def)

lemma length_str_nat: "n < 10 ^ w \<Longrightarrow> 0 < w \<Longrightarrow> length (str_nat n) \<le> w"
proof (induction n arbitrary: w rule: str_nat.induct)
  case (1 n)
  show ?case
  proof (cases "n < 10")
    case True
    then show ?thesis using 1(3) by (subst str_nat.simps) simp
  next
    case False
    then obtain v where w: "w = Suc v" using 1(3) by (cases w) auto
    from False 1(2) w have v: "0 < v" by (cases v) auto
    from 1(2) w have "n div 10 < 10 ^ v" by (simp add: less_mult_imp_div_less mult.commute)
    from 1(1) [OF False this v] False w show ?thesis by (subst str_nat.simps) simp
  qed
qed

lemma zfill_str_nat: "n < 10 ^ w \<Longrightarrow> 0 < w \<Longrightarrow> zfill w (str_nat n) = fixed w n"
proof (induction w arbitrary: n)
  case 0
  then show ?case by simp
next
  case (Suc w)
  show ?case
  proof (cases "n < 10")
    case True
    then show ?thesis
      by (subst str_nat.simps) (simp add: zfill_def fixed_zero)
  next
    case False
    from False Suc.prems have w: "0 < w" by (cases w) auto
    from Suc.prems have d: "n div 10 < 10 ^ w"
      by (simp add: less_mult_imp_div_less mult.commute)
    have "str_nat n = str_nat (n div 10) @ [digit_char (n mod 10)]"
      using False by (subst str_nat.simps) simp
    then show ?thesis
      using zfill_snoc [OF length_str_nat [OF d w]] Suc.IH [OF d w] by simp
  qed
qed

lemma length_str_nat_ge: "10 ^ w \<le> n \<Longrightarrow> w < length (str_nat n)"
proof (induction w arbitrary: n)
  case 0
  then show ?case by (subst str_nat.simps) simp
next
  case (Suc w)
  have "(10::nat) \<le> 10 ^ Suc w" using power_increasing [of 1 "Suc w" "10::nat"] by simp
  then have "10 \<le> n" using Suc.prems by (rule order_trans)
  then have n: "\<not> n < 10" by simp
  from Suc.prems have "10 ^ w \<le> n div 10"
    by (simp add: less_eq_div_iff_mult_less_eq mult.commute)
  from Suc.IH [OF this] n show ?case
    by (subst str_nat.simps) simp
qed

lemma str_nat_four: "1000 \<le> n \<Longrightarrow> n < 10000 \<Longrightarrow> str_nat n = fixed 4 n"
  using length_str_nat_ge [of 3 n] zfill_str_nat [of n 4] by (simp add: zfill_def)

lemma int_of_digits_fixed:
  "n < 10 ^ w \<Longrightarrow> foldl (\<lambda>a c. 10 * a + digit_val c) 0 (fixed w n) = n"
proof (induction w arbitrary: n)
  case 0
  then show ?case by simp
next
  case (Suc w)
  from Suc.prems have "n div 10 < 10 ^ w"
    by (simp add: less_mult_imp_div_less mult.commute)
  from Suc.IH [OF this] show ?case by (simp add: digit_val_digit_char)
qed

lemma digit_char_mod_not_blank: "CHR '' '' \<noteq> digit_char (n mod 10)"
  using digit_char_not_blank [of "n mod 10"] by auto

lemma fixed_chars: "CHR '' '' \<notin> set (fixed w n)"
  by (induction w arbitrary: n) (simp_all add: digit_char_mod_not_blank)

lemma fixed_not_blank: "dropWhile (\<lambda>c. c = CHR '' '') (fixed w n) = fixed w n"
  using fixed_chars [of w n] by (cases "fixed w n") auto

lemma int_of_group_fixed: "n < 10 ^ w \<Longrightarrow> int_of_group (fixed w n) = n"
  by (simp add: int_of_group_def fixed_not_blank int_of_digits_fixed)

text \<open>Each group of the expression matches the fixed-width text of a value in its range.\<close>

lemma digit_char_mod_in_digits: "digit_char (n mod 10) \<in> set digits"
  by (simp add: digit_char_in_digits)

lemma fixed_two: "fixed 2 n = [digit_char (n div 10 mod 10), digit_char (n mod 10)]"
proof -
  have "(2::nat) = Suc (Suc 0)" by simp
  then show ?thesis by (simp only: fixed.simps) simp
qed

lemma fixed_four:
  "fixed 4 n = [digit_char (n div 10 div 10 div 10 mod 10), digit_char (n div 10 div 10 mod 10),
                digit_char (n div 10 mod 10), digit_char (n mod 10)]"
proof -
  have "(4::nat) = Suc (Suc (Suc (Suc 0)))" by simp
  then show ?thesis by (simp only: fixed.simps) simp
qed

lemma fixed_six:
  "fixed 6 n = [digit_char (n div 10 div 10 div 10 div 10 div 10 mod 10),
                digit_char (n div 10 div 10 div 10 div 10 mod 10),
                digit_char (n div 10 div 10 div 10 mod 10), digit_char (n div 10 div 10 mod 10),
                digit_char (n div 10 mod 10), digit_char (n mod 10)]"
proof -
  have "(6::nat) = Suc (Suc (Suc (Suc (Suc (Suc 0)))))" by simp
  then show ?thesis by (simp only: fixed.simps) simp
qed

lemma replicate_six: "replicate 6 x = [x, x, x, x, x, x]"
  by (simp add: numeral_eq_Suc)


lemma match_Y:
  assumes "rmatch its rest = Some (gs, r)"
  shows "rmatch (re_Y # its) (fixed 4 n @ rest) = Some (fixed 4 n # gs, r)"
  using assms by (simp add: re_Y_def fixed_four digit_char_mod_in_digits)

lemma match_f: "rmatch [re_f] (fixed 6 n) = Some ([fixed 6 n], [])"
  by (simp add: re_f_def fixed_six replicate_six digit_char_mod_in_digits)

lemma match_M:
  assumes "n < 60" and "rmatch its rest = Some (gs, r)"
  shows "rmatch (re_M # its) (fixed 2 n @ rest) = Some (fixed 2 n # gs, r)"
proof -
  from assms(1) have "n div 10 \<in> {0, 1, 2, 3, 4, 5}" by auto
  then show ?thesis
    using assms(2)
    by (auto simp: fixed_two re_M_def digit_char_numerals digit_char_mod_in_digits)
qed


lemma match_S:
  assumes "n < 60" and "rmatch its rest = Some (gs, r)"
  shows "rmatch (re_S # its) (fixed 2 n @ rest) = Some (fixed 2 n # gs, r)"
proof -
  from assms(1) have "n div 10 \<in> {0, 1, 2, 3, 4, 5}" by auto
  then show ?thesis
    using assms(2)
    by (auto simp: fixed_two re_S_def digit_char_numerals digit_char_mod_in_digits)
qed

lemma fixed_two_small: "n < 100 \<Longrightarrow> fixed 2 n = [digit_char (n div 10), digit_char (n mod 10)]"
  by (simp add: fixed_two)

lemma pair_H_low:
  assumes "a < 2" and "b < 10" and "rmatch its rest = Some (gs, r)"
  shows "rmatch (re_H # its) (digit_char a # digit_char b # rest) =
         Some ([digit_char a, digit_char b] # gs, r)"
proof -
  from assms(1) have "a = 0 \<or> a = 1" by arith
  then show ?thesis
    using assms(3) digit_char_in_digits [OF assms(2)]
    by (auto simp: re_H_def digit_char_numerals)
qed

lemma pair_H_high:
  assumes "b < 4" and "rmatch its rest = Some (gs, r)"
  shows "rmatch (re_H # its) (digit_char 2 # digit_char b # rest) =
         Some ([digit_char 2, digit_char b] # gs, r)"
proof -
  from assms(1) have "b = 0 \<or> b = 1 \<or> b = 2 \<or> b = 3" by arith
  then show ?thesis
    using assms(2) by (auto simp: re_H_def digit_char_numerals)
qed

lemma match_H:
  assumes "n < 24" and "rmatch its rest = Some (gs, r)"
  shows "rmatch (re_H # its) (fixed 2 n @ rest) = Some (fixed 2 n # gs, r)"
proof (cases "n < 20")
  case True
  then have "n div 10 < 2" "n mod 10 < 10" by simp_all
  from pair_H_low [OF this assms(2)] True show ?thesis by (simp add: fixed_two_small)
next
  case False
  with assms(1) have "n div 10 = 2" "n mod 10 < 4" by arith+
  with pair_H_high [OF this(2) assms(2)] assms(1) show ?thesis by (simp add: fixed_two_small)
qed


lemma one_to_nine:
  "1 \<le> b \<Longrightarrow> b < 10 \<Longrightarrow>
   b = 1 \<or> b = 2 \<or> b = 3 \<or> b = 4 \<or> b = 5 \<or> b = 6 \<or> b = 7 \<or> b = 8 \<or> b = (9::nat)"
  by arith

lemma pair_d_zero:
  assumes "1 \<le> b" and "b < 10" and "rmatch its rest = Some (gs, r)"
  shows "rmatch (re_d # its) (digit_char 0 # digit_char b # rest) =
         Some ([digit_char 0, digit_char b] # gs, r)"
  using one_to_nine [OF assms(1,2)] assms(3)
  by (auto simp: re_d_def digit_char_numerals)

lemma pair_d_mid:
  assumes "a = 1 \<or> a = 2" and "b < 10" and "rmatch its rest = Some (gs, r)"
  shows "rmatch (re_d # its) (digit_char a # digit_char b # rest) =
         Some ([digit_char a, digit_char b] # gs, r)"
  using assms(1,3) digit_char_in_digits [OF assms(2)]
  by (auto simp: re_d_def digit_char_numerals)

lemma pair_d_high:
  assumes "b < 2" and "rmatch its rest = Some (gs, r)"
  shows "rmatch (re_d # its) (digit_char 3 # digit_char b # rest) =
         Some ([digit_char 3, digit_char b] # gs, r)"
proof -
  from assms(1) have "b = 0 \<or> b = 1" by arith
  then show ?thesis
    using assms(2) by (auto simp: re_d_def digit_char_numerals)
qed

lemma match_d:
  assumes "1 \<le> n" and "n \<le> 31" and "rmatch its rest = Some (gs, r)"
  shows "rmatch (re_d # its) (fixed 2 n @ rest) = Some (fixed 2 n # gs, r)"
proof -
  consider "n < 10" | "10 \<le> n" "n < 30" | "30 \<le> n" by arith
  then show ?thesis
  proof cases
    case 1
    with assms(1) have "n div 10 = 0" "1 \<le> n mod 10" "n mod 10 < 10" by simp_all
    with pair_d_zero [OF this(2,3) assms(3)] 1 show ?thesis by (simp add: fixed_two_small)
  next
    case 2
    then have "n div 10 = 1 \<or> n div 10 = 2" "n mod 10 < 10" by arith+
    from pair_d_mid [OF this assms(3)] 2 show ?thesis by (simp add: fixed_two_small)
  next
    case 3
    with assms(2) have "n div 10 = 3" "n mod 10 < 2" by arith+
    with pair_d_high [OF this(2) assms(3)] assms(2) show ?thesis by (simp add: fixed_two_small)
  qed
qed

lemma pair_m_zero:
  assumes "1 \<le> b" and "b < 10" and "rmatch its rest = Some (gs, r)"
  shows "rmatch (re_m # its) (digit_char 0 # digit_char b # rest) =
         Some ([digit_char 0, digit_char b] # gs, r)"
  using one_to_nine [OF assms(1,2)] assms(3)
  by (auto simp: re_m_def digit_char_numerals)

lemma pair_m_one:
  assumes "b < 3" and "rmatch its rest = Some (gs, r)"
  shows "rmatch (re_m # its) (digit_char 1 # digit_char b # rest) =
         Some ([digit_char 1, digit_char b] # gs, r)"
proof -
  from assms(1) have "b = 0 \<or> b = 1 \<or> b = 2" by arith
  then show ?thesis
    using assms(2) by (auto simp: re_m_def digit_char_numerals)
qed

lemma match_m:
  assumes "1 \<le> n" and "n \<le> 12" and "rmatch its rest = Some (gs, r)"
  shows "rmatch (re_m # its) (fixed 2 n @ rest) = Some (fixed 2 n # gs, r)"
proof (cases "n < 10")
  case True
  with assms(1) have "n div 10 = 0" "1 \<le> n mod 10" "n mod 10 < 10" by simp_all
  with pair_m_zero [OF this(2,3) assms(3)] True show ?thesis by (simp add: fixed_two_small)
next
  case False
  with assms(2) have "n div 10 = 1" "n mod 10 < 3" by arith+
  with pair_m_one [OF this(2) assms(3)] assms(2) show ?thesis by (simp add: fixed_two_small)
qed

text \<open>The text of a valid value, the groups it is matched into and the value built from them.\<close>

lemma days_in_month_le: "days_in_month y m \<le> 31"
  by (simp add: days_in_month_def)

lemma strftime_fixed:
  assumes "valid_datetime d" and "pad_year \<or> 1000 \<le> year d"
  shows "strftime_evs pad_year d =
     fixed 4 (year d) @ ''-'' @ fixed 2 (month d) @ ''-'' @ fixed 2 (day d) @ ''T'' @
     fixed 2 (hour d) @ '':'' @ fixed 2 (minute d) @ '':'' @ fixed 2 (second d) @ ''.'' @
     fixed 6 (microsecond d)"
proof -
  from assms(1) have b: "year d < 10 ^ 4" "month d < 10 ^ 2" "day d < 10 ^ 2" "hour d < 10 ^ 2"
    "minute d < 10 ^ 2" "second d < 10 ^ 2" "microsecond d < 10 ^ 6"
    using days_in_month_le [of "year d" "month d"] by (simp_all add: valid_datetime_def)
  have y: "(if pad_year then zfill 4 (str_nat (year d)) else str_nat (year d)) = fixed 4 (year d)"
    using assms(2) b(1) zfill_str_nat [OF b(1)] str_nat_four [of "year d"] by auto
  show ?thesis
    unfolding strftime_evs_def y
    by (simp only: zfill_str_nat [OF b(2)] zfill_str_nat [OF b(3)] zfill_str_nat [OF b(4)]
        zfill_str_nat [OF b(5)] zfill_str_nat [OF b(6)] zfill_str_nat [OF b(7)] zero_less_numeral)
qed

lemma rmatch_fraction:
  assumes "valid_datetime d"
  shows "rmatch format_fraction
     (fixed 4 (year d) @ ''-'' @ fixed 2 (month d) @ ''-'' @ fixed 2 (day d) @ ''T'' @
      fixed 2 (hour d) @ '':'' @ fixed 2 (minute d) @ '':'' @ fixed 2 (second d) @ ''.'' @
      fixed 6 (microsecond d)) =
     Some ([fixed 4 (year d), fixed 2 (month d), fixed 2 (day d), fixed 2 (hour d),
            fixed 2 (minute d), fixed 2 (second d), fixed 6 (microsecond d)], [])"
proof -
  from assms have v: "1 \<le> month d" "month d \<le> 12" "1 \<le> day d" "day d \<le> 31"
    "hour d < 24" "minute d < 60" "second d < 60"
    using days_in_month_le [of "year d" "month d"] by (simp_all add: valid_datetime_def)
  note f = match_f [of "microsecond d"]
  have f': "rmatch [Literal ''.'', re_f] (''.'' @ fixed 6 (microsecond d)) =
      Some ([fixed 6 (microsecond d)], [])"
    using f by simp
  note s = match_S [OF v(7) f']
  have s': "rmatch [Literal '':'', re_S, Literal ''.'', re_f]
      ('':'' @ fixed 2 (second d) @ ''.'' @ fixed 6 (microsecond d)) =
      Some ([fixed 2 (second d), fixed 6 (microsecond d)], [])"
    using s by simp
  note m = match_M [OF v(6) s']
  have m': "rmatch [Literal '':'', re_M, Literal '':'', re_S, Literal ''.'', re_f]
      ('':'' @ fixed 2 (minute d) @ '':'' @ fixed 2 (second d) @ ''.'' @ fixed 6 (microsecond d)) =
      Some ([fixed 2 (minute d), fixed 2 (second d), fixed 6 (microsecond d)], [])"
    using m by simp
  note h = match_H [OF v(5) m']
  have h': "rmatch [Literal ''Tt'', re_H, Literal '':'', re_M, Literal '':'', re_S, Literal ''.'', re_f]
      (''T'' @ fixed 2 (hour d) @ '':'' @ fixed 2 (minute d) @ '':'' @ fixed 2 (second d) @ ''.'' @
       fixed 6 (microsecond d)) =
      Some ([fixed 2 (hour d), fixed 2 (minute d), fixed 2 (second d), fixed 6 (microsecond d)], [])"
    using h by simp
  note dd = match_d [OF v(3,4) h']
  have d': "rmatch [Literal ''-'', re_d, Literal ''Tt'', re_H, Literal '':'', re_M, Literal '':'',
                    re_S, Literal ''.'', re_f]
      (''-'' @ fixed 2 (day d) @ ''T'' @ fixed 2 (hour d) @ '':'' @ fixed 2 (minute d) @ '':'' @
       fixed 2 (second d) @ ''.'' @ fixed 6 (microsecond d)) =
      Some ([fixed 2 (day d), fixed 2 (hour d), fixed 2 (minute d), fixed 2 (second d),
             fixed 6 (microsecond d)], [])"
    using dd by simp
  note mo = match_m [OF v(1,2) d']
  have mo': "rmatch [Literal ''-'', re_m, Literal ''-'', re_d, Literal ''Tt'', re_H, Literal '':'',
                     re_M, Literal '':'', re_S, Literal ''.'', re_f]
      (''-'' @ fixed 2 (month d) @ ''-'' @ fixed 2 (day d) @ ''T'' @ fixed 2 (hour d) @ '':'' @
       fixed 2 (minute d) @ '':'' @ fixed 2 (second d) @ ''.'' @ fixed 6 (microsecond d)) =
      Some ([fixed 2 (month d), fixed 2 (day d), fixed 2 (hour d), fixed 2 (minute d),
             fixed 2 (second d), fixed 6 (microsecond d)], [])"
    using mo by simp
  from match_Y [OF mo', of "year d"] show ?thesis
    by (simp add: format_fraction_def format_seconds_def)
qed

lemma build_datetime_fixed:
  assumes "valid_datetime d"
  shows "build_datetime [fixed 4 (year d), fixed 2 (month d), fixed 2 (day d), fixed 2 (hour d),
            fixed 2 (minute d), fixed 2 (second d), fixed 6 (microsecond d)] =
         Inr (d\<lparr>tzinfo := None\<rparr>)"
proof -
  from assms have b: "year d < 10 ^ 4" "month d < 10 ^ 2" "day d < 10 ^ 2" "hour d < 10 ^ 2"
    "minute d < 10 ^ 2" "second d < 10 ^ 2" "microsecond d < 10 ^ 6"
    using days_in_month_le [of "year d" "month d"] by (simp_all add: valid_datetime_def)
  note i = int_of_group_fixed [OF b(1)] int_of_group_fixed [OF b(2)] int_of_group_fixed [OF b(3)]
    int_of_group_fixed [OF b(4)] int_of_group_fixed [OF b(5)] int_of_group_fixed [OF b(6)]
    int_of_group_fixed [OF b(7)]
  have r: "\<lparr>year = year d, month = month d, day = day d, hour = hour d, minute = minute d,
            second = second d, microsecond = microsecond d, tzinfo = None\<rparr> = d\<lparr>tzinfo := None\<rparr>"
    by (cases d) simp
  from assms have c: "0 < year d" "0 < day d" "day d \<le> days_in_month (year d) (month d)"
    "second d \<le> 59"
    by (simp_all add: valid_datetime_def)
  then show ?thesis
    by (simp add: build_datetime_def i length_fixed Let_def r not_less [symmetric])
qed

lemma round_trip_fields:
  assumes "valid_datetime d" and "pad_year \<or> 1000 \<le> year d"
  shows "evsdate_to_datetime (datetime_to_evsdate pad_year d) = Inr (d\<lparr>tzinfo := None\<rparr>)"
proof -
  have "strptime format_fraction (datetime_to_evsdate pad_year d) = Inr (d\<lparr>tzinfo := None\<rparr>)"
    unfolding strptime_def datetime_to_evsdate_def strftime_fixed [OF assms]
      rmatch_fraction [OF assms(1)]
    by (simp add: build_datetime_fixed [OF assms(1)])
  then show ?thesis by (simp add: evsdate_to_datetime_def)
qed

text \<open>
  Claim C10, as amended. For every valid naive \<^verbatim>\<open>datetime\<close> whose year the C library
  prints with four digits (it pads, or the year is at least 1000), parsing the
  text made from it gives it back, and the two compare equal.
\<close>

theorem evsdate_round_trip_naive:
  assumes "valid_datetime d" and "tzinfo d = None" and "pad_year \<or> 1000 \<le> year d"
  shows "evsdate_to_datetime (datetime_to_evsdate pad_year d) = Inr d \<and> datetime_eq d d"
proof -
  from assms(2) have "d\<lparr>tzinfo := None\<rparr> = d" by (cases d) simp
  with round_trip_fields [OF assms(1,3)] assms(2) show ?thesis
    by (simp add: datetime_eq_def)
qed

lemma ex_datetime_valid: "valid_datetime ex_datetime"
  by (simp add: valid_datetime_def ex_datetime_def days_in_month_def is_leap_def)

theorem evsdate_round_trip_naive_witness:
  "valid_datetime ex_datetime \<and> tzinfo ex_datetime = None \<and> 1000 \<le> year ex_datetime
   \<and> evsdate_to_datetime (datetime_to_evsdate False ex_datetime) = Inr ex_datetime
   \<and> datetime_eq ex_datetime ex_datetime"
proof -
  have a: "tzinfo ex_datetime = None" and b: "False \<or> 1000 \<le> year ex_datetime"
    by (simp_all add: ex_datetime_def)
  from evsdate_round_trip_naive [OF ex_datetime_valid a b] ex_datetime_valid a b
  show ?thesis by simp
qed

lemma replicate_three: "replicate 3 x = [x, x, x]"
  by (simp add: numeral_3_eq_3)

lemma ex_early_text: "datetime_to_evsdate False ex_early = ''999-02-28T23:04:05.000678''"
  by (simp add: datetime_to_evsdate_def strftime_evs_def ex_early_def ex_datetime_def
      zfill_def str_nat.simps digit_char_def replicate_three)

text \<open>
  Claim C10 as stated fails twice: an aware value comes back naive, which never compares
  equal to an aware one; and where the C library does not pad, the text of a year below
  1000 matches neither format.
\<close>

theorem evsdate_round_trip_counterexample:
  "evsdate_to_datetime (datetime_to_evsdate True ex_aware) = Inr ex_datetime
   \<and> \<not> datetime_eq ex_datetime ex_aware
   \<and> evsdate_to_datetime (datetime_to_evsdate False ex_early) =
       Inl (ValueError (JString ''time data does not match format''))"
proof -
  have v: "valid_datetime ex_aware"
    using ex_datetime_valid by (simp add: valid_datetime_def ex_aware_def)
  have "ex_aware\<lparr>tzinfo := None\<rparr> = ex_datetime"
    by (simp add: ex_aware_def ex_datetime_def)
  with round_trip_fields [OF v, of True]
  have a: "evsdate_to_datetime (datetime_to_evsdate True ex_aware) = Inr ex_datetime" by simp
  have b: "\<not> datetime_eq ex_datetime ex_aware"
    by (simp add: datetime_eq_def ex_aware_def ex_datetime_def)
  have c: "evsdate_to_datetime (datetime_to_evsdate False ex_early) =
       Inl (ValueError (JString ''time data does not match format''))"
    by (simp add: ex_early_text evsdate_to_datetime_def strptime_def format_fraction_def
        format_seconds_def re_Y_def digits_def)
  from a b c show ?thesis by blast
qed

end
